theory Spec2Isabelle
  imports Complex_Main "HOL-Library.AList"
begin

section \<open>Values, exceptions and data frames\<close>

text \<open>
  The program handles its tabular data as pandas DataFrames. A frame is modelled by its
  ordered column labels and its rows; a row maps a column label to a cell. Only the labels
  listed in \<open>columns\<close> belong to the frame. Floating-point cells are modelled by exact
  reals (no rounding in arithmetic), integer cells by unbounded integers.
\<close>

datatype cell = StrV string | IntV int | FloatV real | TimeV real

datatype exn =
    KeyError string
  | TypeError string
  | ValueError string
  | OSError string
  | FetchError string

fun str_exn :: "exn \<Rightarrow> string" where
  "str_exn (KeyError k) = CHR 0x27 # k @ [CHR 0x27]"
| "str_exn (TypeError m) = m"
| "str_exn (ValueError m) = m"
| "str_exn (OSError m) = m"
| "str_exn (FetchError m) = m"

record dataframe =
  columns :: "string list"
  rows :: "(string \<Rightarrow> cell) list"

definition bindE :: "exn + 'a \<Rightarrow> ('a \<Rightarrow> exn + 'b) \<Rightarrow> exn + 'b" where
  "bindE m f = (case m of Inl e \<Rightarrow> Inl e | Inr x \<Rightarrow> f x)"

text \<open>\<open>len(df)\<close>\<close>

definition len :: "dataframe \<Rightarrow> nat" where
  "len df = length (rows df)"

text \<open>\<open>name in df\<close>: membership among the column labels.\<close>

definition has_column :: "string \<Rightarrow> dataframe \<Rightarrow> bool" where
  "has_column name df = (name \<in> set (columns df))"

text \<open>\<open>df[name]\<close>: the column as a series; a missing label raises \<open>KeyError\<close>.\<close>

definition getitem :: "dataframe \<Rightarrow> string \<Rightarrow> exn + cell list" where
  "getitem df name =
     (if has_column name df then Inr (map (\<lambda>r. r name) (rows df)) else Inl (KeyError name))"

text \<open>\<open>series == s\<close> and \<open>series.isin(vs)\<close>: element-wise boolean masks.\<close>

definition eq_mask :: "cell list \<Rightarrow> string \<Rightarrow> bool list" where
  "eq_mask series s = map (\<lambda>c. c = StrV s) series"

definition isin :: "cell list \<Rightarrow> string list \<Rightarrow> bool list" where
  "isin series vs = map (\<lambda>c. c \<in> StrV ` set vs) series"

text \<open>\<open>df[mask]\<close>: the rows whose mask entry is true.\<close>

definition boolean_index :: "dataframe \<Rightarrow> bool list \<Rightarrow> dataframe" where
  "boolean_index df msk = df\<lparr>rows := map fst (filter snd (zip (rows df) msk))\<rparr>"

text \<open>
  \<open>series.sum()\<close>: integers add to an integer, a float makes the sum a float; the sum
  of no cells is 0. A column of text or timestamps has no numeric total: the summary
  raises on it, here at the sum. Missing values are not modelled.
\<close>

fun add_cell :: "cell \<Rightarrow> cell \<Rightarrow> exn + cell" where
  "add_cell (IntV a) (IntV b) = Inr (IntV (a + b))"
| "add_cell (IntV a) (FloatV b) = Inr (FloatV (of_int a + b))"
| "add_cell (FloatV a) (IntV b) = Inr (FloatV (a + of_int b))"
| "add_cell (FloatV a) (FloatV b) = Inr (FloatV (a + b))"
| "add_cell _ _ = Inl (TypeError ''unsupported operand type(s) for +'')"

fun sum_from :: "cell \<Rightarrow> cell list \<Rightarrow> exn + cell" where
  "sum_from acc [] = Inr acc"
| "sum_from acc (c # cs) = bindE (add_cell acc c) (\<lambda>acc'. sum_from acc' cs)"

definition series_sum :: "cell list \<Rightarrow> exn + cell" where
  "series_sum series = sum_from (IntV 0) series"

section \<open>Number formatting\<close>

text \<open>
  The format specifications \<open>{:,}\<close> and \<open>{:,.2f}\<close> of the summary: decimal digits in
  groups of three separated by commas, the second with two decimals, rounded half to even.
\<close>

fun digits :: "nat \<Rightarrow> string" where
  "digits n = (if n < 10 then [''0123456789'' ! n] else digits (n div 10) @ [''0123456789'' ! (n mod 10)])"

declare digits.simps [simp del]

fun group3 :: "string \<Rightarrow> string" where
  "group3 s = (if length s \<le> 3 then s
               else group3 (take (length s - 3) s) @ CHR '','' # drop (length s - 3) s)"

declare group3.simps [simp del]

definition round_half_even :: "real \<Rightarrow> int" where
  "round_half_even r =
     (let f = \<lfloor>r\<rfloor>; d = r - of_int f
      in if d < 1 / 2 then f else if 1 / 2 < d then f + 1 else if even f then f else f + 1)"

definition fmt_int :: "int \<Rightarrow> string" where
  "fmt_int n = (if n < 0 then ''-'' else []) @ group3 (digits (nat \<bar>n\<bar>))"

definition fmt_2f :: "real \<Rightarrow> string" where
  "fmt_2f x =
     (let c = nat (round_half_even (\<bar>x\<bar> * 100))
      in (if x < 0 then ''-'' else []) @ group3 (digits (c div 100)) @ ''.''
           @ digits (c mod 100 div 10) @ digits (c mod 10))"

text \<open>\<open>f"{v:,}"\<close>; the grouping of a float's shortest representation is left out of the
  model (every quantity column of the schemas is integral), a string refuses the comma.\<close>

fun format_comma :: "cell \<Rightarrow> exn + string" where
  "format_comma (IntV n) = Inr (fmt_int n)"
| "format_comma (FloatV x) = Inl (ValueError ''float grouping not modelled'')"
| "format_comma _ = Inl (ValueError ''Cannot specify a comma with s.'')"

text \<open>\<open>f"{v:,.2f}"\<close>\<close>

fun format_comma_2f :: "cell \<Rightarrow> exn + string" where
  "format_comma_2f (IntV n) = Inr (fmt_2f (of_int n))"
| "format_comma_2f (FloatV x) = Inr (fmt_2f x)"
| "format_comma_2f _ = Inl (ValueError ''Unknown format code f for object of type str'')"

text \<open>The three characters that precede the amount in the source text, as UTF-8 bytes.\<close>

definition currency_prefix :: string where
  "currency_prefix = [CHR 0xC3, CHR 0xA2, CHR 0xE2, CHR 0x80, CHR 0x9A, CHR 0xC2, CHR 0xB9]"

section \<open>The summary of the report writer\<close>

text \<open>
  \<open>ReportGenerator._create_summary\<close> returns a list of four dictionaries; a dictionary is
  an association list in the order of the literal, its values are counts or text.
\<close>

datatype sval = SInt nat | SStr string

text \<open>\<open>len(df[df['status'] == s])\<close> and \<open>len(df[df['status'].isin(vs)])\<close>\<close>

definition len_status_eq :: "dataframe \<Rightarrow> string \<Rightarrow> exn + nat" where
  "len_status_eq df s =
     bindE (getitem df ''status'') (\<lambda>st. Inr (len (boolean_index df (eq_mask st s))))"

definition len_status_isin :: "dataframe \<Rightarrow> string list \<Rightarrow> exn + nat" where
  "len_status_isin df vs =
     bindE (getitem df ''status'') (\<lambda>st. Inr (len (boolean_index df (isin st vs))))"

text \<open>\<open>df[name].sum()\<close>\<close>

definition column_sum :: "dataframe \<Rightarrow> string \<Rightarrow> exn + cell" where
  "column_sum df name = bindE (getitem df name) series_sum"

text \<open>The conditional expressions that fill the aggregate of each dictionary.\<close>

definition total_value :: "dataframe \<Rightarrow> exn + string" where
  "total_value purchase_df =
     (if has_column ''amount'' purchase_df
      then bindE (column_sum purchase_df ''amount'')
             (\<lambda>v. bindE (format_comma_2f v) (\<lambda>t. Inr (currency_prefix @ t)))
      else Inr ''N/A'')"

definition total_quantity :: "dataframe \<Rightarrow> exn + string" where
  "total_quantity df =
     (if has_column ''quantity'' df
      then bindE (column_sum df ''quantity'') format_comma
      else Inr ''N/A'')"

definition summary_entry ::
  "string \<Rightarrow> dataframe \<Rightarrow> exn + nat \<Rightarrow> string \<Rightarrow> exn + string \<Rightarrow> exn + (string \<times> sval) list"
where
  "summary_entry department df completed aggregate_key aggregate =
     bindE (len_status_eq df ''Pending'') (\<lambda>n_pending.
     bindE completed (\<lambda>n_completed.
     bindE aggregate (\<lambda>agg.
       Inr [(''Department'', SStr department),
            (''Total Records'', SInt (len df)),
            (''Pending'', SInt n_pending),
            (''Completed'', SInt n_completed),
            (aggregate_key, SStr agg)])))"

definition create_summary ::
  "dataframe \<Rightarrow> dataframe \<Rightarrow> dataframe \<Rightarrow> dataframe \<Rightarrow> exn + (string \<times> sval) list list"
where
  "create_summary purchase_df production_df packing_df shipment_df =
     bindE (summary_entry ''Purchase'' purchase_df
              (len_status_isin purchase_df [''Approved'', ''Delivered''])
              ''Total Value'' (total_value purchase_df)) (\<lambda>e1.
     bindE (summary_entry ''Production'' production_df
              (len_status_eq production_df ''Completed'')
              ''Total Quantity'' (total_quantity production_df)) (\<lambda>e2.
     bindE (summary_entry ''Packing'' packing_df
              (len_status_eq packing_df ''Completed'')
              ''Total Packed'' (total_quantity packing_df)) (\<lambda>e3.
     bindE (summary_entry ''Shipment'' shipment_df
              (len_status_eq shipment_df ''Delivered'')
              ''Total Shipped'' (total_quantity shipment_df)) (\<lambda>e4.
       Inr [e1, e2, e3, e4]))))"

section \<open>The shared state and the read handlers\<close>

record datetime =
  year :: nat
  month :: nat
  day :: nat
  hour :: nat
  minute :: nat
  second :: nat

text \<open>
  \<open>strftime('%Y-%m-%d %H:%M:%S')\<close> and \<open>strftime('%Y%m%d_%H%M%S')\<close>: the year in full,
  the other fields with two digits.
\<close>

definition pad2 :: "nat \<Rightarrow> string" where
  "pad2 n = (if n < 10 then CHR ''0'' # digits n else digits n)"


definition strftime_stamp :: "datetime \<Rightarrow> string" where
  "strftime_stamp t =
     digits (year t) @ pad2 (month t) @ pad2 (day t) @ ''_''
       @ pad2 (hour t) @ pad2 (minute t) @ pad2 (second t)"

text \<open>The module-level dictionary \<open>latest_data\<close>; \<open>None\<close> is Python's \<open>None\<close>.\<close>

record latest_data =
  purchase :: "dataframe option"
  production :: "dataframe option"
  packing :: "dataframe option"
  shipment :: "dataframe option"
  last_updated :: "datetime option"

definition initial_data :: latest_data where
  "initial_data =
     \<lparr>purchase = None, production = None, packing = None, shipment = None, last_updated = None\<rparr>"

text \<open>The dictionary once the five assignments of a publish have been made.\<close>

definition snapshot_at ::
  "dataframe \<Rightarrow> dataframe \<Rightarrow> dataframe \<Rightarrow> dataframe \<Rightarrow> datetime \<Rightarrow> latest_data" where
  "snapshot_at pu pr pk sh t =
     \<lparr>purchase = Some pu, production = Some pr, packing = Some pk, shipment = Some sh,
      last_updated = Some t\<rparr>"

datatype json =
    JNat nat
  | JCell cell
  | JString string
  | JArray "json list"
  | JObject "(string \<times> json) list"

text \<open>
  A handler's answer: the value it hands to \<open>jsonify\<close>, and the HTTP status. The
  serialization of that value is not modelled.
\<close>

type_synonym response = "json \<times> nat"

text \<open>Using a dataset that is still \<open>None\<close> as a frame raises \<open>TypeError\<close>.\<close>

definition as_frame :: "dataframe option \<Rightarrow> exn + dataframe" where
  "as_frame d = (case d of None \<Rightarrow> Inl (TypeError ''NoneType'') | Some df \<Rightarrow> Inr df)"


text \<open>\<open>df.to_dict(orient='records')\<close>\<close>

definition to_dict_records :: "dataframe \<Rightarrow> json" where
  "to_dict_records df = JArray (map (\<lambda>r. JObject (map (\<lambda>c. (c, JCell (r c))) (columns df))) (rows df))"

text \<open>\<open>GET /api/department/<dept_name>\<close>\<close>

definition get_department_data :: "string \<Rightarrow> latest_data \<Rightarrow> (exn + response) \<times> latest_data" where
  "get_department_data dept_name ld =
     (case last_updated ld of
        None \<Rightarrow> Inr (JObject [(''error'', JString ''No data available'')], 404)
      | Some t \<Rightarrow>
          (let data_map = [(''purchase'', purchase ld), (''production'', production ld),
                           (''packing'', packing ld), (''shipment'', shipment ld)]
           in case map_of data_map dept_name of
                None \<Rightarrow> Inr (JObject [(''error'', JString ''Invalid department'')], 400)
              | Some d \<Rightarrow>
                  bindE (as_frame d) (\<lambda>df.
                    Inr (JObject [(''data'', to_dict_records df), (''count'', JNat (len df))], 200))),
      ld)"

section \<open>Files, the log and the environment\<close>

text \<open>
  The report directory is a list of files in the order the operating system lists them; a
  file is its path and its bytes. Directories are implicit in the paths. The log collects
  the records the program hands to its loggers.
\<close>

type_synonym path = string

datatype level = INFO | ERROR

record world =
  files :: "(path \<times> string) list"
  log :: "(level \<times> string) list"

definition log_info :: "string \<Rightarrow> 'a world_scheme \<Rightarrow> 'a world_scheme" where
  "log_info msg w = w\<lparr>log := log w @ [(INFO, msg)]\<rparr>"

definition log_error :: "string \<Rightarrow> 'a world_scheme \<Rightarrow> 'a world_scheme" where
  "log_error msg w = w\<lparr>log := log w @ [(ERROR, msg)]\<rparr>"

text \<open>
  What the operating system answers when a file is written: the write completes, it is
  refused before the file is touched, or it breaks off after some bytes (a full disk).
\<close>

datatype outcome = Completed | Denied | Cut nat

text \<open>A sheet of the workbook holds a dataset or the summary.\<close>

datatype sheet = DataSheet dataframe | SummarySheet "(string \<times> sval) list list"

text \<open>
  The parts of the platform the report writer is handed: the two serializers (their output
  format is not modelled) and the answer of the operating system for each path written.
\<close>

record platform =
  to_csv :: "dataframe \<Rightarrow> string"
  to_excel :: "(string \<times> sheet) list \<Rightarrow> string"
  write_result :: "path \<Rightarrow> outcome"

definition write_file ::
  "platform \<Rightarrow> path \<Rightarrow> string \<Rightarrow> 'a world_scheme \<Rightarrow> exn option \<times> 'a world_scheme" where
  "write_file pf p data w =
     (case write_result pf p of
        Completed \<Rightarrow> (None, w\<lparr>files := AList.update p data (files w)\<rparr>)
      | Denied \<Rightarrow> (Some (OSError ''Permission denied''), w)
      | Cut n \<Rightarrow> (Some (OSError ''No space left on device''),
                  w\<lparr>files := AList.update p (take n data) (files w)\<rparr>))"

text \<open>\<open>shutil.copy(src, dst)\<close>\<close>

definition copy_file ::
  "platform \<Rightarrow> path \<Rightarrow> path \<Rightarrow> 'a world_scheme \<Rightarrow> exn option \<times> 'a world_scheme" where
  "copy_file pf src dst w =
     (case map_of (files w) src of
        None \<Rightarrow> (Some (OSError ''No such file or directory''), w)
      | Some data \<Rightarrow> write_file pf dst data w)"

section \<open>The report writer\<close>

text \<open>The directories of \<open>ReportGenerator()\<close>, built with its default argument.\<close>

definition report_dir :: path where
  "report_dir = ''reports''"

definition csv_dir :: path where
  "csv_dir = report_dir @ ''/csv''"

definition excel_filename :: "datetime \<Rightarrow> path" where
  "excel_filename now = report_dir @ ''/daily_report_'' @ strftime_stamp now @ ''.xlsx''"

definition excel_latest_filename :: path where
  "excel_latest_filename = report_dir @ ''/daily_report.xlsx''"

definition csv_filename :: "string \<Rightarrow> datetime \<Rightarrow> path" where
  "csv_filename name now = csv_dir @ ''/'' @ name @ ''_'' @ strftime_stamp now @ ''.csv''"

definition csv_latest_filename :: "string \<Rightarrow> path" where
  "csv_latest_filename name = csv_dir @ ''/'' @ name @ ''.csv''"

text \<open>
  The body of the \<open>with pd.ExcelWriter(filename)\<close> block: the four data sheets, then the
  summary sheet. It yields the sheets written and the exception that interrupted it, if
  any. The styling of the sheets belongs to the rendering and is not modelled.
\<close>

definition workbook_sheets ::
  "dataframe \<Rightarrow> dataframe \<Rightarrow> dataframe \<Rightarrow> dataframe \<Rightarrow>
   exn option \<times> (string \<times> sheet) list" where
  "workbook_sheets purchase_df production_df packing_df shipment_df =
     (let sheets = [(''Purchase'', DataSheet purchase_df), (''Production'', DataSheet production_df),
                    (''Packing'', DataSheet packing_df), (''Shipment'', DataSheet shipment_df)]
      in case create_summary purchase_df production_df packing_df shipment_df of
           Inl e \<Rightarrow> (Some e, sheets)
         | Inr summary_data \<Rightarrow> (None, sheets @ [(''Summary'', SummarySheet summary_data)]))"

text \<open>
  \<open>generate_excel_reports\<close>. Opening the writer creates the timestamped file; leaving the
  block saves the sheets written so far, also when the block is left by an exception. The
  copy to the latest name comes after the block. Every exception is logged and raised again.
\<close>

definition excel_try ::
  "platform \<Rightarrow> datetime \<Rightarrow> dataframe \<Rightarrow> dataframe \<Rightarrow> dataframe \<Rightarrow> dataframe \<Rightarrow>
   'a world_scheme \<Rightarrow> exn option \<times> 'a world_scheme" where
  "excel_try pf now purchase_df production_df packing_df shipment_df w =
     (let filename = excel_filename now;
          latest_filename = excel_latest_filename
      in if write_result pf filename = Denied then (Some (OSError ''Permission denied''), w)
         else
           (let (raised, sheets) = workbook_sheets purchase_df production_df packing_df shipment_df;
                (failed, w1) = write_file pf filename (to_excel pf sheets) w
            in case failed of
                 Some e \<Rightarrow> (Some e, w1)
               | None \<Rightarrow>
                   (case raised of
                      Some e \<Rightarrow> (Some e, w1)
                    | None \<Rightarrow>
                        (let (failed2, w2) = copy_file pf filename latest_filename w1
                         in case failed2 of
                              Some e \<Rightarrow> (Some e, w2)
                            | None \<Rightarrow> (None, log_info (''Excel report generated: '' @ filename) w2)))))"

definition generate_excel_reports ::
  "platform \<Rightarrow> datetime \<Rightarrow> dataframe \<Rightarrow> dataframe \<Rightarrow> dataframe \<Rightarrow> dataframe \<Rightarrow>
   'a world_scheme \<Rightarrow> exn option \<times> 'a world_scheme" where
  "generate_excel_reports pf now purchase_df production_df packing_df shipment_df w =
     (let (raised, w1) = excel_try pf now purchase_df production_df packing_df shipment_df
                           (log_info ''Generating Excel reports...'' w)
      in case raised of
           None \<Rightarrow> (None, w1)
         | Some e \<Rightarrow> (Some e, log_error (''Failed to generate Excel report: '' @ str_exn e) w1))"

text \<open>
  \<open>generate_csv_exports\<close>. The loop over the dictionary of datasets, in the order of its
  literal: each frame is serialized to the timestamped name, then serialized again to the
  latest name.
\<close>

fun csv_loop ::
  "platform \<Rightarrow> datetime \<Rightarrow> (string \<times> dataframe) list \<Rightarrow> 'a world_scheme \<Rightarrow>
   exn option \<times> 'a world_scheme" where
  "csv_loop pf now [] w = (None, w)"
| "csv_loop pf now ((name, df) # datasets) w =
     (let filename = csv_filename name now;
          latest_filename = csv_latest_filename name;
          (failed, w1) = write_file pf filename (to_csv pf df) w
      in case failed of
           Some e \<Rightarrow> (Some e, w1)
         | None \<Rightarrow>
             (let (failed2, w2) = write_file pf latest_filename (to_csv pf df) w1
              in case failed2 of
                   Some e \<Rightarrow> (Some e, w2)
                 | None \<Rightarrow> csv_loop pf now datasets (log_info (''CSV exported: '' @ filename) w2)))"

text \<open>The dictionary \<open>datasets\<close> of \<open>generate_csv_exports\<close>.\<close>

definition csv_datasets ::
  "dataframe \<Rightarrow> dataframe \<Rightarrow> dataframe \<Rightarrow> dataframe \<Rightarrow> (string \<times> dataframe) list" where
  "csv_datasets purchase_df production_df packing_df shipment_df =
     [(''purchase_data'', purchase_df), (''production_data'', production_df),
      (''packing_data'', packing_df), (''shipment_data'', shipment_df)]"

definition generate_csv_exports ::
  "platform \<Rightarrow> datetime \<Rightarrow> dataframe \<Rightarrow> dataframe \<Rightarrow> dataframe \<Rightarrow> dataframe \<Rightarrow>
   'a world_scheme \<Rightarrow> exn option \<times> 'a world_scheme" where
  "generate_csv_exports pf now purchase_df production_df packing_df shipment_df w =
     (let datasets = csv_datasets purchase_df production_df packing_df shipment_df;
          (raised, w1) = csv_loop pf now datasets (log_info ''Generating CSV exports...'' w)
      in case raised of
           None \<Rightarrow> (None, w1)
         | Some e \<Rightarrow> (Some e, log_error (''Failed to generate CSV exports: '' @ str_exn e) w1))"

section \<open>The retention sweep\<close>

text \<open>
  \<open>Path.rglob\<close> yields the files below a directory, at any depth, whose name matches the
  pattern. The two patterns of the sweep, \<open>*_*.xlsx\<close> and \<open>*_*.csv\<close>, match a name that
  ends with the extension and has an underscore before it.
\<close>

definition basename :: "path \<Rightarrow> string" where
  "basename p = rev (takeWhile (\<lambda>c. c \<noteq> CHR ''/'') (rev p))"

definition below :: "path \<Rightarrow> path \<Rightarrow> bool" where
  "below dir p = (take (length dir + 1) p = dir @ ''/'')"

definition match_underscore :: "string \<Rightarrow> string \<Rightarrow> bool" where
  "match_underscore ext name =
     (length ext \<le> length name \<and> drop (length name - length ext) name = ext \<and>
      CHR ''_'' \<in> set (take (length name - length ext) name))"

definition rglob :: "path \<Rightarrow> string \<Rightarrow> 'a world_scheme \<Rightarrow> path list" where
  "rglob dir ext w =
     filter (\<lambda>p. below dir p \<and> match_underscore ext (basename p)) (map fst (files w))"

text \<open>
  What the operating system answers to the sweep: the modification time of a file and
  whether deleting it is refused.
\<close>

record filesystem =
  st_mtime :: "path \<Rightarrow> real"
  unlink_error :: "path \<Rightarrow> exn option"

fun sweep_loop ::
  "filesystem \<Rightarrow> real \<Rightarrow> string \<Rightarrow> path list \<Rightarrow> 'a world_scheme \<Rightarrow> exn option \<times> 'a world_scheme"
where
  "sweep_loop os cutoff_time what [] w = (None, w)"
| "sweep_loop os cutoff_time what (file_path # rest) w =
     (if st_mtime os file_path < cutoff_time
      then (case unlink_error os file_path of
              Some e \<Rightarrow> (Some e, w)
            | None \<Rightarrow> sweep_loop os cutoff_time what rest
                       (log_info (what @ file_path) (w\<lparr>files := AList.delete file_path (files w)\<rparr>)))
      else sweep_loop os cutoff_time what rest w)"

definition str_int :: "int \<Rightarrow> string" where
  "str_int n = (if n < 0 then ''-'' else []) @ digits (nat \<bar>n\<bar>)"

text \<open>\<open>cleanup_old_reports(days)\<close>, called at the time \<open>now\<close> (seconds since the epoch).\<close>

definition cleanup_old_reports ::
  "filesystem \<Rightarrow> real \<Rightarrow> int \<Rightarrow> 'a world_scheme \<Rightarrow> 'a world_scheme" where
  "cleanup_old_reports os now days w =
     (let w0 = log_info (''Cleaning up reports older than '' @ str_int days @ '' days...'') w;
          cutoff_time = now - of_int (days * 86400);
          (raised, w1) = sweep_loop os cutoff_time ''Deleted old report: ''
                           (rglob report_dir ''.xlsx'' w0) w0
      in case raised of
           Some e \<Rightarrow> log_error (''Error during cleanup: '' @ str_exn e) w1
         | None \<Rightarrow>
             (let (raised2, w2) = sweep_loop os cutoff_time ''Deleted old CSV: ''
                                    (rglob csv_dir ''.csv'' w1) w1
              in case raised2 of
                   Some e \<Rightarrow> log_error (''Error during cleanup: '' @ str_exn e) w2
                 | None \<Rightarrow> w2))"


section \<open>The refresh cycle\<close>

text \<open>
  The state the orchestrator works on: the files and the log, and the module-level
  dictionary \<open>latest_data\<close>.
\<close>

record system = world +
  latest :: latest_data

text \<open>
  What the environment answers during one run of \<open>fetch_and_process_data\<close>: the results
  of the four calls of the extractor (a frame, or the exception the call raises), the three
  readings of the clock, and the platform of the report writer.
\<close>

record cycle =
  purchase_fetch :: "exn + dataframe"
  production_fetch :: "exn + dataframe"
  packing_fetch :: "exn + dataframe"
  shipment_fetch :: "exn + dataframe"
  publish_now :: datetime
  excel_now :: datetime
  csv_now :: datetime
  os :: platform

text \<open>A call of the extractor logs its start and, when it returns, the number of records.\<close>

definition extractor_call ::
  "string \<Rightarrow> exn + dataframe \<Rightarrow> 'a world_scheme \<Rightarrow> (exn + dataframe) \<times> 'a world_scheme" where
  "extractor_call what result w =
     (let w1 = log_info (''Fetching '' @ what @ '' data...'') w
      in case result of
           Inl e \<Rightarrow> (Inl e, w1)
         | Inr df \<Rightarrow> (Inr df, log_info (''Retrieved '' @ digits (len df) @ '' '' @ what @ '' records'') w1))"

type_synonym datasets = "dataframe \<times> dataframe \<times> dataframe \<times> dataframe"

text \<open>The block \<open># Extract data from ERP\<close>: four calls in a row, the first exception ends it.\<close>

definition extract_data :: "cycle \<Rightarrow> 'a world_scheme \<Rightarrow> (exn + datasets) \<times> 'a world_scheme" where
  "extract_data c w =
     (case extractor_call ''purchase'' (purchase_fetch c) w of
        (Inl e, w1) \<Rightarrow> (Inl e, w1)
      | (Inr purchase_data, w1) \<Rightarrow>
     (case extractor_call ''production'' (production_fetch c) w1 of
        (Inl e, w2) \<Rightarrow> (Inl e, w2)
      | (Inr production_data, w2) \<Rightarrow>
     (case extractor_call ''packing'' (packing_fetch c) w2 of
        (Inl e, w3) \<Rightarrow> (Inl e, w3)
      | (Inr packing_data, w3) \<Rightarrow>
     (case extractor_call ''shipment'' (shipment_fetch c) w3 of
        (Inl e, w4) \<Rightarrow> (Inl e, w4)
      | (Inr shipment_data, w4) \<Rightarrow>
          (Inr (purchase_data, production_data, packing_data, shipment_data), w4)))))"

text \<open>The block \<open># Update global state\<close>: the five assignments made under \<open>data_lock\<close>.\<close>

definition update_global_state :: "datetime \<Rightarrow> datasets \<Rightarrow> latest_data \<Rightarrow> latest_data" where
  "update_global_state now d ld =
     (case d of (purchase_data, production_data, packing_data, shipment_data) \<Rightarrow>
        ld\<lparr>purchase := Some purchase_data, production := Some production_data,
           packing := Some packing_data, shipment := Some shipment_data,
           last_updated := Some now\<rparr>)"

text \<open>The block \<open># Generate reports\<close>: the workbook, then the CSV exports.\<close>

definition generate_reports ::
  "cycle \<Rightarrow> datasets \<Rightarrow> 'a world_scheme \<Rightarrow> exn option \<times> 'a world_scheme" where
  "generate_reports c d w =
     (case d of (purchase_data, production_data, packing_data, shipment_data) \<Rightarrow>
        (case generate_excel_reports (os c) (excel_now c)
                purchase_data production_data packing_data shipment_data w of
           (Some e, w1) \<Rightarrow> (Some e, w1)
         | (None, w1) \<Rightarrow>
             generate_csv_exports (os c) (csv_now c)
               purchase_data production_data packing_data shipment_data w1))"

text \<open>
  \<open>fetch_and_process_data\<close>. The \<open>except Exception\<close> clause logs whatever the three
  blocks raise; the first component of the result is the exception that leaves the call,
  and there is none.
\<close>

definition fetch_and_process_data :: "cycle \<Rightarrow> system \<Rightarrow> exn option \<times> system" where
  "fetch_and_process_data c s =
     (case extract_data c (log_info ''Starting data fetch and processing...'' s) of
        (Inl e, s1) \<Rightarrow> (None, log_error (''Error in data processing: '' @ str_exn e) s1)
      | (Inr d, s1) \<Rightarrow>
          (case generate_reports c d (s1\<lparr>latest := update_global_state (publish_now c) d (latest s1)\<rparr>) of
             (Some e, s2) \<Rightarrow> (None, log_error (''Error in data processing: '' @ str_exn e) s2)
           | (None, s2) \<Rightarrow> (None, log_info ''Data processing completed successfully'' s2)))"

section \<open>Concurrent cycles\<close>

text \<open>
  Every call of \<open>fetch_and_process_data\<close> runs in a thread of its own kind: the handler of
  \<open>POST /api/refresh\<close> starts a new thread for each request; the initial fetch of
  \<open>start\<close> and the jobs of the scheduler thread run one after the other. A thread is at a
  point of the function, holding the frames fetched so far, together with the answers the
  environment gives it (fixed when the thread starts, they are arbitrary).
\<close>

datatype pc =
    Begin
  | GotPurchase dataframe
  | GotProduction dataframe dataframe
  | GotPacking dataframe dataframe dataframe
  | Fetched datasets
  | WritePurchase datasets
  | WriteProduction datasets
  | WritePacking datasets
  | WriteShipment datasets
  | WriteUpdated datasets
  | Unlock datasets
  | Published datasets
  | ExcelDone datasets
  | Finished

record thread =
  pc :: pc
  env :: cycle
  on_demand :: bool

text \<open>The server: the system, its threads, and the holder of \<open>data_lock\<close>, if any.\<close>

record server = system +
  threads :: "thread list"
  data_lock :: "nat option"

definition init_server :: "(path \<times> string) list \<Rightarrow> server" where
  "init_server fs =
     \<lparr>files = fs, log = [], latest = initial_data, threads = [], data_lock = None\<rparr>"

definition goto :: "nat \<Rightarrow> pc \<Rightarrow> server \<Rightarrow> server" where
  "goto i p s = s\<lparr>threads := (threads s)[i := (threads s ! i)\<lparr>pc := p\<rparr>]\<rparr>"

text \<open>The \<open>except\<close> clause: the error is logged and the thread ends.\<close>

definition except :: "nat \<Rightarrow> exn \<Rightarrow> server \<Rightarrow> server" where
  "except i e s = goto i Finished (log_error (''Error in data processing: '' @ str_exn e) s)"

text \<open>
  One step of thread \<open>i\<close>, which is at \<open>pc t\<close>. A step is a call of the extractor, the
  acquisition of the lock, one assignment to \<open>latest_data\<close>, the release of the lock, or a
  call of the report writer. A thread waiting for the lock and a finished thread have no
  step.
\<close>

definition thread_step :: "nat \<Rightarrow> thread \<Rightarrow> server \<Rightarrow> server option" where
  "thread_step i t s =
     (case pc t of
        Begin \<Rightarrow>
          (case extractor_call ''purchase'' (purchase_fetch (env t))
                  (log_info ''Starting data fetch and processing...'' s) of
             (Inl e, s1) \<Rightarrow> Some (except i e s1)
           | (Inr purchase_data, s1) \<Rightarrow> Some (goto i (GotPurchase purchase_data) s1))
      | GotPurchase purchase_data \<Rightarrow>
          (case extractor_call ''production'' (production_fetch (env t)) s of
             (Inl e, s1) \<Rightarrow> Some (except i e s1)
           | (Inr production_data, s1) \<Rightarrow>
               Some (goto i (GotProduction purchase_data production_data) s1))
      | GotProduction purchase_data production_data \<Rightarrow>
          (case extractor_call ''packing'' (packing_fetch (env t)) s of
             (Inl e, s1) \<Rightarrow> Some (except i e s1)
           | (Inr packing_data, s1) \<Rightarrow>
               Some (goto i (GotPacking purchase_data production_data packing_data) s1))
      | GotPacking purchase_data production_data packing_data \<Rightarrow>
          (case extractor_call ''shipment'' (shipment_fetch (env t)) s of
             (Inl e, s1) \<Rightarrow> Some (except i e s1)
           | (Inr shipment_data, s1) \<Rightarrow>
               Some (goto i (Fetched (purchase_data, production_data, packing_data, shipment_data)) s1))
      | Fetched d \<Rightarrow>
          (if data_lock s = None then Some (goto i (WritePurchase d) (s\<lparr>data_lock := Some i\<rparr>))
           else None)
      | WritePurchase d \<Rightarrow>
          Some (goto i (WriteProduction d)
                 (s\<lparr>latest := (latest s)\<lparr>purchase := Some (fst d)\<rparr>\<rparr>))
      | WriteProduction d \<Rightarrow>
          Some (goto i (WritePacking d)
                 (s\<lparr>latest := (latest s)\<lparr>production := Some (fst (snd d))\<rparr>\<rparr>))
      | WritePacking d \<Rightarrow>
          Some (goto i (WriteShipment d)
                 (s\<lparr>latest := (latest s)\<lparr>packing := Some (fst (snd (snd d)))\<rparr>\<rparr>))
      | WriteShipment d \<Rightarrow>
          Some (goto i (WriteUpdated d)
                 (s\<lparr>latest := (latest s)\<lparr>shipment := Some (snd (snd (snd d)))\<rparr>\<rparr>))
      | WriteUpdated d \<Rightarrow>
          Some (goto i (Unlock d)
                 (s\<lparr>latest := (latest s)\<lparr>last_updated := Some (publish_now (env t))\<rparr>\<rparr>))
      | Unlock d \<Rightarrow> Some (goto i (Published d) (s\<lparr>data_lock := None\<rparr>))
      | Published d \<Rightarrow>
          (case generate_excel_reports (os (env t)) (excel_now (env t))
                  (fst d) (fst (snd d)) (fst (snd (snd d))) (snd (snd (snd d))) s of
             (Some e, s1) \<Rightarrow> Some (except i e s1)
           | (None, s1) \<Rightarrow> Some (goto i (ExcelDone d) s1))
      | ExcelDone d \<Rightarrow>
          (case generate_csv_exports (os (env t)) (csv_now (env t))
                  (fst d) (fst (snd d)) (fst (snd (snd d))) (snd (snd (snd d))) s of
             (Some e, s1) \<Rightarrow> Some (except i e s1)
           | (None, s1) \<Rightarrow>
               Some (goto i Finished (log_info ''Data processing completed successfully'' s1)))
      | Finished \<Rightarrow> None)"

text \<open>
  \<open>refresh_data\<close>, the handler of \<open>POST /api/refresh\<close>: it starts a thread and answers at
  once. It consults no state.
\<close>

definition refresh_data :: "cycle \<Rightarrow> server \<Rightarrow> response \<times> server" where
  "refresh_data c s =
     ((JObject [(''status'', JString ''Refresh initiated'')], 200),
      s\<lparr>threads := threads s @ [\<lparr>pc = Begin, env = c, on_demand = True\<rparr>]\<rparr>)"

text \<open>
  The events of the server: a refresh request, a cycle started by \<open>start\<close> or by the
  scheduler thread (possible when the previous one of these has ended), and a step of a
  thread.
\<close>

datatype event = Refresh cycle | Due cycle | Step nat

fun ended :: "pc \<Rightarrow> bool" where
  "ended Finished = True"
| "ended _ = False"

definition step :: "event \<Rightarrow> server \<Rightarrow> server option" where
  "step ev s =
     (case ev of
        Refresh c \<Rightarrow> Some (snd (refresh_data c s))
      | Due c \<Rightarrow>
          (if list_all (\<lambda>t. on_demand t \<or> ended (pc t)) (threads s)
           then Some (s\<lparr>threads := threads s @ [\<lparr>pc = Begin, env = c, on_demand = False\<rparr>]\<rparr>)
           else None)
      | Step i \<Rightarrow> (if i < length (threads s) then thread_step i (threads s ! i) s else None))"

fun run :: "event list \<Rightarrow> server \<Rightarrow> server option" where
  "run [] s = Some s"
| "run (ev # evs) s = (case step ev s of None \<Rightarrow> None | Some s' \<Rightarrow> run evs s')"

text \<open>
  What a handler that reads under \<open>data_lock\<close> (\<open>get_summary\<close>, \<open>get_department_data\<close>)
  finds in \<open>latest_data\<close>; while a thread holds the lock the handler waits.
\<close>

definition read_locked :: "server \<Rightarrow> latest_data option" where
  "read_locked s = (if data_lock s = None then Some (latest s) else None)"

text \<open>The snapshot a cycle publishes, if its four fetches return.\<close>

definition snapshot_of :: "cycle \<Rightarrow> latest_data option" where
  "snapshot_of c =
     (case (purchase_fetch c, production_fetch c, packing_fetch c, shipment_fetch c) of
        (Inr pu, Inr pr, Inr pk, Inr sh) \<Rightarrow> Some (snapshot_at pu pr pk sh (publish_now c))
      | _ \<Rightarrow> None)"

text \<open>The number of calls of \<open>get_purchase_data\<close> so far: each one leaves a record in the log.\<close>

definition purchase_fetches :: "'a world_scheme \<Rightarrow> nat" where
  "purchase_fetches w = count_list (log w) (INFO, ''Fetching purchase data...'')"

section \<open>Notions used to state the properties of the summaries\<close>

text \<open>The numeric reading of a cell, and the cells a total can be taken of.\<close>

fun cell_real :: "cell \<Rightarrow> real" where
  "cell_real (IntV n) = of_int n"
| "cell_real (FloatV x) = x"
| "cell_real _ = 0"

fun cell_int :: "cell \<Rightarrow> int" where
  "cell_int (IntV n) = n"
| "cell_int _ = 0"

fun numeric :: "cell \<Rightarrow> bool" where
  "numeric (IntV n) = True"
| "numeric (FloatV x) = True"
| "numeric _ = False"

fun integral :: "cell \<Rightarrow> bool" where
  "integral (IntV n) = True"
| "integral _ = False"

text \<open>
  The number of records whose status is one of the given values, and the total of a column
  over all records.
\<close>

definition count_status :: "dataframe \<Rightarrow> string list \<Rightarrow> nat" where
  "count_status df vs = length (filter (\<lambda>r. r ''status'' \<in> StrV ` set vs) (rows df))"

definition real_total :: "dataframe \<Rightarrow> string \<Rightarrow> real" where
  "real_total df name = sum_list (map (\<lambda>r. cell_real (r name)) (rows df))"

definition int_total :: "dataframe \<Rightarrow> string \<Rightarrow> int" where
  "int_total df name = sum_list (map (\<lambda>r. cell_int (r name)) (rows df))"

text \<open>
  The part of the fixed schemas the summaries rely on: a purchase dataset has a status and a
  numeric amount column, the other three kinds have a status and an integral quantity column.
\<close>

definition purchase_schema :: "dataframe \<Rightarrow> bool" where
  "purchase_schema df \<longleftrightarrow>
     has_column ''status'' df \<and> has_column ''amount'' df \<and> list_all (\<lambda>r. numeric (r ''amount'')) (rows df)"

definition quantity_schema :: "dataframe \<Rightarrow> bool" where
  "quantity_schema df \<longleftrightarrow>
     has_column ''status'' df \<and> has_column ''quantity'' df \<and> list_all (\<lambda>r. integral (r ''quantity'')) (rows df)"

text \<open>The column labels that \<open>ERPDataExtractor\<close> gives to the four kinds of dataset.\<close>

definition purchase_columns :: "string list" where
  "purchase_columns = [''po_id'', ''vendor_name'', ''item_name'', ''quantity'', ''unit_price'',
     ''order_date'', ''delivery_date'', ''status'', ''amount'']"

definition production_columns :: "string list" where
  "production_columns = [''production_id'', ''product_name'', ''batch_no'', ''quantity'', ''unit'',
     ''start_date'', ''end_date'', ''status'', ''department'']"

definition packing_columns :: "string list" where
  "packing_columns = [''packing_id'', ''product_name'', ''quantity'', ''package_type'',
     ''packing_date'', ''status'', ''operator'']"

definition shipment_columns :: "string list" where
  "shipment_columns = [''shipment_id'', ''customer_name'', ''destination'', ''quantity'',
     ''shipment_date'', ''expected_delivery'', ''status'', ''transporter'']"

text \<open>Example records and datasets.\<close>

definition purchase_row :: "string \<Rightarrow> real \<Rightarrow> string \<Rightarrow> cell" where
  "purchase_row st amt =
     (\<lambda>c. if c = ''status'' then StrV st else if c = ''amount'' then FloatV amt
          else if c = ''quantity'' then IntV 1 else StrV [])"

definition quantity_row :: "string \<Rightarrow> int \<Rightarrow> string \<Rightarrow> cell" where
  "quantity_row st q =
     (\<lambda>c. if c = ''status'' then StrV st else if c = ''quantity'' then IntV q else StrV [])"

definition example_purchase :: dataframe where
  "example_purchase = \<lparr>columns = purchase_columns, rows =
     [purchase_row ''Pending'' 1250.75, purchase_row ''Approved'' 249.25,
      purchase_row ''Delivered'' 500, purchase_row ''Pending'' 500,
      purchase_row ''Approved'' 500, purchase_row ''Approved'' 500,
      purchase_row ''Delivered'' 500, purchase_row ''Pending'' 400,
      purchase_row ''Approved'' 300, purchase_row ''Delivered'' 300]\<rparr>"

definition empty_frame :: "string list \<Rightarrow> dataframe" where
  "empty_frame cols = \<lparr>columns = cols, rows = []\<rparr>"

definition shipment_of :: "string \<Rightarrow> dataframe" where
  "shipment_of st = \<lparr>columns = shipment_columns, rows = [quantity_row st 5]\<rparr>"

definition example_time :: datetime where
  "example_time = \<lparr>year = 2024, month = 3, day = 7, hour = 8, minute = 0, second = 5\<rparr>"

section \<open>Notions used to state the properties of concurrent cycles\<close>

text \<open>The frames a thread holds are the ones its fetches returned.\<close>

definition fetched :: "cycle \<Rightarrow> datasets \<Rightarrow> bool" where
  "fetched c d \<longleftrightarrow>
     purchase_fetch c = Inr (fst d) \<and> production_fetch c = Inr (fst (snd d)) \<and>
     packing_fetch c = Inr (fst (snd (snd d))) \<and> shipment_fetch c = Inr (snd (snd (snd d)))"

fun holding :: "pc \<Rightarrow> cycle \<Rightarrow> bool" where
  "holding Begin c = True"
| "holding (GotPurchase pu) c = (purchase_fetch c = Inr pu)"
| "holding (GotProduction pu pr) c = (purchase_fetch c = Inr pu \<and> production_fetch c = Inr pr)"
| "holding (GotPacking pu pr pk) c =
     (purchase_fetch c = Inr pu \<and> production_fetch c = Inr pr \<and> packing_fetch c = Inr pk)"
| "holding (Fetched d) c = fetched c d"
| "holding (WritePurchase d) c = fetched c d"
| "holding (WriteProduction d) c = fetched c d"
| "holding (WritePacking d) c = fetched c d"
| "holding (WriteShipment d) c = fetched c d"
| "holding (WriteUpdated d) c = fetched c d"
| "holding (Unlock d) c = fetched c d"
| "holding (Published d) c = fetched c d"
| "holding (ExcelDone d) c = fetched c d"
| "holding Finished c = True"

text \<open>The points between the acquisition and the release of \<open>data_lock\<close>.\<close>

fun holds_lock :: "pc \<Rightarrow> bool" where
  "holds_lock (WritePurchase d) = True"
| "holds_lock (WriteProduction d) = True"
| "holds_lock (WritePacking d) = True"
| "holds_lock (WriteShipment d) = True"
| "holds_lock (WriteUpdated d) = True"
| "holds_lock (Unlock d) = True"
| "holds_lock _ = False"

text \<open>The points after the release of the lock, and the snapshot a thread has published.\<close>

fun has_published :: "pc \<Rightarrow> bool" where
  "has_published (Published d) = True"
| "has_published (ExcelDone d) = True"
| "has_published Finished = True"
| "has_published _ = False"

definition published_by :: "thread \<Rightarrow> latest_data option" where
  "published_by t = (if has_published (pc t) then snapshot_of (env t) else None)"

text \<open>The dictionary in the middle of a publish that started from \<open>base\<close>.\<close>

fun staged :: "pc \<Rightarrow> datetime \<Rightarrow> latest_data \<Rightarrow> latest_data" where
  "staged (WriteProduction d) now base = base\<lparr>purchase := Some (fst d)\<rparr>"
| "staged (WritePacking d) now base =
     base\<lparr>purchase := Some (fst d), production := Some (fst (snd d))\<rparr>"
| "staged (WriteShipment d) now base =
     base\<lparr>purchase := Some (fst d), production := Some (fst (snd d)),
          packing := Some (fst (snd (snd d)))\<rparr>"
| "staged (WriteUpdated d) now base =
     base\<lparr>purchase := Some (fst d), production := Some (fst (snd d)),
          packing := Some (fst (snd (snd d))), shipment := Some (snd (snd (snd d)))\<rparr>"
| "staged (Unlock d) now base = update_global_state now d base"
| "staged _ now base = base"

text \<open>
  A dictionary is whole if it is the initial one or the snapshot published by one thread.
\<close>

definition whole :: "thread list \<Rightarrow> latest_data \<Rightarrow> bool" where
  "whole ths ld \<longleftrightarrow> ld = initial_data \<or> (\<exists>k < length ths. published_by (ths ! k) = Some ld)"

text \<open>
  The invariant on the threads, the lock and the dictionary: every thread holds the frames
  its fetches returned; a thread between acquisition and release is the holder of the lock;
  the dictionary is whole when the lock is free, and staged from a whole one when it is held.
\<close>

definition inv3 :: "thread list \<Rightarrow> nat option \<Rightarrow> latest_data \<Rightarrow> bool" where
  "inv3 ths lk ld \<longleftrightarrow>
     (\<forall>k < length ths. holding (pc (ths ! k)) (env (ths ! k))) \<and>
     (\<forall>k < length ths. holds_lock (pc (ths ! k)) \<longrightarrow> lk = Some k) \<and>
     (case lk of
        None \<Rightarrow> whole ths ld
      | Some j \<Rightarrow> j < length ths \<and> holds_lock (pc (ths ! j)) \<and>
          (\<exists>base. whole ths base \<and> ld = staged (pc (ths ! j)) (publish_now (env (ths ! j))) base))"

text \<open>What a step does to the point of its thread, to the lock and to the dictionary.\<close>

fun move :: "nat \<Rightarrow> pc \<Rightarrow> cycle \<Rightarrow> nat option \<Rightarrow> latest_data \<Rightarrow> pc \<Rightarrow> nat option \<Rightarrow> latest_data \<Rightarrow> bool"
where
  "move i Begin c lk ld p' lk' ld' \<longleftrightarrow>
     lk' = lk \<and> ld' = ld \<and> (p' = Finished \<or> (\<exists>pu. p' = GotPurchase pu \<and> purchase_fetch c = Inr pu))"
| "move i (GotPurchase pu) c lk ld p' lk' ld' \<longleftrightarrow>
     lk' = lk \<and> ld' = ld \<and>
     (p' = Finished \<or> (\<exists>pr. p' = GotProduction pu pr \<and> production_fetch c = Inr pr))"
| "move i (GotProduction pu pr) c lk ld p' lk' ld' \<longleftrightarrow>
     lk' = lk \<and> ld' = ld \<and>
     (p' = Finished \<or> (\<exists>pk. p' = GotPacking pu pr pk \<and> packing_fetch c = Inr pk))"
| "move i (GotPacking pu pr pk) c lk ld p' lk' ld' \<longleftrightarrow>
     lk' = lk \<and> ld' = ld \<and>
     (p' = Finished \<or> (\<exists>sh. p' = Fetched (pu, pr, pk, sh) \<and> shipment_fetch c = Inr sh))"
| "move i (Fetched d) c lk ld p' lk' ld' \<longleftrightarrow>
     lk = None \<and> lk' = Some i \<and> ld' = ld \<and> p' = WritePurchase d"
| "move i (WritePurchase d) c lk ld p' lk' ld' \<longleftrightarrow>
     lk' = lk \<and> ld' = ld\<lparr>purchase := Some (fst d)\<rparr> \<and> p' = WriteProduction d"
| "move i (WriteProduction d) c lk ld p' lk' ld' \<longleftrightarrow>
     lk' = lk \<and> ld' = ld\<lparr>production := Some (fst (snd d))\<rparr> \<and> p' = WritePacking d"
| "move i (WritePacking d) c lk ld p' lk' ld' \<longleftrightarrow>
     lk' = lk \<and> ld' = ld\<lparr>packing := Some (fst (snd (snd d)))\<rparr> \<and> p' = WriteShipment d"
| "move i (WriteShipment d) c lk ld p' lk' ld' \<longleftrightarrow>
     lk' = lk \<and> ld' = ld\<lparr>shipment := Some (snd (snd (snd d)))\<rparr> \<and> p' = WriteUpdated d"
| "move i (WriteUpdated d) c lk ld p' lk' ld' \<longleftrightarrow>
     lk' = lk \<and> ld' = ld\<lparr>last_updated := Some (publish_now c)\<rparr> \<and> p' = Unlock d"
| "move i (Unlock d) c lk ld p' lk' ld' \<longleftrightarrow> lk' = None \<and> ld' = ld \<and> p' = Published d"
| "move i (Published d) c lk ld p' lk' ld' \<longleftrightarrow>
     lk' = lk \<and> ld' = ld \<and> (p' = Finished \<or> p' = ExcelDone d)"
| "move i (ExcelDone d) c lk ld p' lk' ld' \<longleftrightarrow> lk' = lk \<and> ld' = ld \<and> p' = Finished"
| "move i Finished c lk ld p' lk' ld' \<longleftrightarrow> False"

text \<open>The invariant of the server, and the number of threads that have made their first step.\<close>

definition inv :: "server \<Rightarrow> bool" where
  "inv s = inv3 (threads s) (data_lock s) (latest s)"

definition started :: "thread list \<Rightarrow> nat" where
  "started ths = length (filter (\<lambda>t. pc t \<noteq> Begin) ths)"

text \<open>A thread is running until it has ended.\<close>

definition running :: "thread \<Rightarrow> bool" where
  "running t \<longleftrightarrow> \<not> ended (pc t)"

section \<open>Example files and platforms\<close>

text \<open>
  A platform whose serializers write the column labels of a frame and the names of the
  sheets, a report directory whose files were written long ago, and an operating system
  that reports one modification time for every file and refuses no deletion.
\<close>

definition demo_platform :: "(path \<Rightarrow> outcome) \<Rightarrow> platform" where
  "demo_platform wr = \<lparr>to_csv = (\<lambda>df. concat (map (\<lambda>c. c @ '','') (columns df))),
      to_excel = (\<lambda>sheets. concat (map (\<lambda>(n, s). n @ '';'') sheets)), write_result = wr\<rparr>"

definition stale_reports :: world where
  "stale_reports = \<lparr>files = [(''reports/daily_report.xlsx'', ''old workbook''),
      (''reports/daily_report_20240101_080000.xlsx'', ''old workbook''),
      (''reports/csv/purchase_data.csv'', ''old purchase''),
      (''reports/csv/production_data.csv'', ''old production''),
      (''reports/csv/packing_data.csv'', ''old packing''),
      (''reports/csv/shipment_data.csv'', ''old shipment''),
      (''reports/.gitkeep'', [])], log = []\<rparr>"

definition quiet_filesystem :: "real \<Rightarrow> filesystem" where
  "quiet_filesystem t = \<lparr>st_mtime = (\<lambda>p. t), unlink_error = (\<lambda>p. None)\<rparr>"

text \<open>The fixed names under which the latest report of each kind is kept.\<close>

definition latest_paths :: "path list" where
  "latest_paths = [excel_latest_filename, csv_latest_filename ''purchase_data'',
     csv_latest_filename ''production_data'', csv_latest_filename ''packing_data'',
     csv_latest_filename ''shipment_data'']"

definition deny_at :: "path \<Rightarrow> path \<Rightarrow> outcome" where
  "deny_at q = (\<lambda>p. if p = q then Denied else Completed)"

definition example_excel_run :: "exn option \<times> world" where
  "example_excel_run = generate_excel_reports (demo_platform (\<lambda>p. Completed)) example_time
     example_purchase (empty_frame production_columns) (empty_frame packing_columns)
     (empty_frame shipment_columns) stale_reports"

definition example_csv_run :: "exn option \<times> world" where
  "example_csv_run = generate_csv_exports (demo_platform (\<lambda>p. Completed)) example_time
     example_purchase (empty_frame production_columns) (empty_frame packing_columns)
     (empty_frame shipment_columns) stale_reports"

text \<open>Example cycles, and a system that has published a snapshot before.\<close>

definition example_cycle :: "(path \<Rightarrow> outcome) \<Rightarrow> cycle" where
  "example_cycle wr =
     \<lparr>purchase_fetch = Inr example_purchase,
      production_fetch = Inr (empty_frame production_columns),
      packing_fetch = Inr (empty_frame packing_columns),
      shipment_fetch = Inr (shipment_of ''Dispatched''),
      publish_now = example_time, excel_now = example_time, csv_now = example_time,
      os = demo_platform wr\<rparr>"

definition earlier_time :: datetime where
  "earlier_time = \<lparr>year = 2024, month = 3, day = 7, hour = 7, minute = 0, second = 2\<rparr>"

definition example_system :: system where
  "example_system =
     \<lparr>files = files stale_reports, log = [],
      latest = snapshot_at (empty_frame purchase_columns) (empty_frame production_columns)
                 (empty_frame packing_columns) (empty_frame shipment_columns) earlier_time\<rparr>"

text \<open>Example runs of the server.\<close>

definition boot :: "event list" where
  "boot = [Due (example_cycle (\<lambda>p. Completed)), Step 0, Step 0, Step 0, Step 0, Step 0, Step 0,
     Step 0, Step 0, Step 0, Step 0, Step 0, Step 0, Step 0]"

definition example_datasets :: datasets where
  "example_datasets = (example_purchase, empty_frame production_columns,
     empty_frame packing_columns, shipment_of ''Dispatched'')"

definition booted_server :: server where
  "booted_server =
     \<lparr>files = [(''reports/daily_report_20240307_080005.xlsx'',
                ''Purchase;Production;Packing;Shipment;Summary;''),
               (''reports/daily_report.xlsx'', ''Purchase;Production;Packing;Shipment;Summary;''),
               (''reports/csv/purchase_data_20240307_080005.csv'',
                ''po_id,vendor_name,item_name,quantity,unit_price,order_date,delivery_date,status,amount,''),
               (''reports/csv/purchase_data.csv'',
                ''po_id,vendor_name,item_name,quantity,unit_price,order_date,delivery_date,status,amount,''),
               (''reports/csv/production_data_20240307_080005.csv'',
                ''production_id,product_name,batch_no,quantity,unit,start_date,end_date,status,department,''),
               (''reports/csv/production_data.csv'',
                ''production_id,product_name,batch_no,quantity,unit,start_date,end_date,status,department,''),
               (''reports/csv/packing_data_20240307_080005.csv'',
                ''packing_id,product_name,quantity,package_type,packing_date,status,operator,''),
               (''reports/csv/packing_data.csv'',
                ''packing_id,product_name,quantity,package_type,packing_date,status,operator,''),
               (''reports/csv/shipment_data_20240307_080005.csv'',
                ''shipment_id,customer_name,destination,quantity,shipment_date,expected_delivery,status,transporter,''),
               (''reports/csv/shipment_data.csv'',
                ''shipment_id,customer_name,destination,quantity,shipment_date,expected_delivery,status,transporter,'')],
      log = [(INFO, ''Starting data fetch and processing...''),
             (INFO, ''Fetching purchase data...''),
             (INFO, ''Retrieved 10 purchase records''),
             (INFO, ''Fetching production data...''),
             (INFO, ''Retrieved 0 production records''),
             (INFO, ''Fetching packing data...''),
             (INFO, ''Retrieved 0 packing records''),
             (INFO, ''Fetching shipment data...''),
             (INFO, ''Retrieved 1 shipment records''),
             (INFO, ''Generating Excel reports...''),
             (INFO, ''Excel report generated: reports/daily_report_20240307_080005.xlsx''),
             (INFO, ''Generating CSV exports...''),
             (INFO, ''CSV exported: reports/csv/purchase_data_20240307_080005.csv''),
             (INFO, ''CSV exported: reports/csv/production_data_20240307_080005.csv''),
             (INFO, ''CSV exported: reports/csv/packing_data_20240307_080005.csv''),
             (INFO, ''CSV exported: reports/csv/shipment_data_20240307_080005.csv''),
             (INFO, ''Data processing completed successfully'')],
      latest = snapshot_at example_purchase (empty_frame production_columns)
                 (empty_frame packing_columns) (shipment_of ''Dispatched'') example_time,
      threads = [\<lparr>pc = Finished, env = example_cycle (\<lambda>p. Completed), on_demand = False\<rparr>],
      data_lock = None\<rparr>"

definition request :: event where
  "request = Refresh (example_cycle (\<lambda>p. Completed))"

definition first_running :: server where
  "first_running = booted_server
     \<lparr>log := log booted_server @ [(INFO, ''Starting data fetch and processing...''),
         (INFO, ''Fetching purchase data...''), (INFO, ''Retrieved 10 purchase records'')],
      threads := [\<lparr>pc = Finished, env = example_cycle (\<lambda>p. Completed), on_demand = False\<rparr>,
         \<lparr>pc = GotPurchase example_purchase, env = example_cycle (\<lambda>p. Completed),
          on_demand = True\<rparr>]\<rparr>"

definition both_running :: server where
  "both_running = booted_server
     \<lparr>log := log booted_server @ [(INFO, ''Starting data fetch and processing...''),
         (INFO, ''Fetching purchase data...''), (INFO, ''Retrieved 10 purchase records''),
         (INFO, ''Starting data fetch and processing...''),
         (INFO, ''Fetching purchase data...''), (INFO, ''Retrieved 10 purchase records'')],
      threads := [\<lparr>pc = Finished, env = example_cycle (\<lambda>p. Completed), on_demand = False\<rparr>,
         \<lparr>pc = GotPurchase example_purchase, env = example_cycle (\<lambda>p. Completed),
          on_demand = True\<rparr>,
         \<lparr>pc = GotPurchase example_purchase, env = example_cycle (\<lambda>p. Completed),
          on_demand = True\<rparr>]\<rparr>"

definition request_pending :: server where
  "request_pending = booted_server
     \<lparr>threads := [\<lparr>pc = Finished, env = example_cycle (\<lambda>p. Completed), on_demand = False\<rparr>,
         \<lparr>pc = Begin, env = example_cycle (\<lambda>p. Completed), on_demand = True\<rparr>]\<rparr>"

section \<open>Properties of the summaries\<close>

lemma filter_zip_map: "length (filter snd (zip xs (map h xs))) = length (filter h xs)"
  by (induction xs) auto

lemma len_status_eq_count:
  "has_column ''status'' df \<Longrightarrow> len_status_eq df s = Inr (count_status df [s])"
  by (simp add: len_status_eq_def getitem_def bindE_def len_def boolean_index_def eq_mask_def
      count_status_def filter_zip_map o_def)

lemma len_status_isin_count:
  "has_column ''status'' df \<Longrightarrow> len_status_isin df vs = Inr (count_status df vs)"
  by (simp add: len_status_isin_def getitem_def bindE_def len_def boolean_index_def isin_def
      count_status_def filter_zip_map o_def)

lemma sum_from_numeric:
  "numeric acc \<Longrightarrow> list_all numeric cs \<Longrightarrow>
   \<exists>c. sum_from acc cs = Inr c \<and> numeric c \<and> cell_real c = cell_real acc + sum_list (map cell_real cs)"
proof (induction cs arbitrary: acc)
  case Nil
  then show ?case by simp
next
  case (Cons c cs)
  from Cons.prems obtain a where a: "add_cell acc c = Inr a" "numeric a" "cell_real a = cell_real acc + cell_real c"
    by (cases acc; cases c) auto
  from Cons.IH [OF a(2)] Cons.prems(2) a show ?case
    by (auto simp: bindE_def)
qed

lemma sum_from_integral:
  "list_all integral cs \<Longrightarrow> sum_from (IntV a) cs = Inr (IntV (a + sum_list (map cell_int cs)))"
proof (induction cs arbitrary: a)
  case Nil
  then show ?case by simp
next
  case (Cons c cs)
  then show ?case by (cases c) (auto simp: bindE_def)
qed

lemma format_comma_2f_numeric: "numeric c \<Longrightarrow> format_comma_2f c = Inr (fmt_2f (cell_real c))"
  by (cases c) auto

lemma total_value_schema:
  "purchase_schema df \<Longrightarrow> total_value df = Inr (currency_prefix @ fmt_2f (real_total df ''amount''))"
proof -
  assume s: "purchase_schema df"
  then have "list_all numeric (map (\<lambda>r. r ''amount'') (rows df))"
    by (simp add: purchase_schema_def list_all_iff)
  from sum_from_numeric [OF _ this, of "IntV 0"]
  obtain c where c: "sum_from (IntV 0) (map (\<lambda>r. r ''amount'') (rows df)) = Inr c" "numeric c"
      "cell_real c = real_total df ''amount''"
    by (auto simp: real_total_def o_def)
  with s show ?thesis
    by (simp add: total_value_def purchase_schema_def column_sum_def getitem_def bindE_def
        series_sum_def format_comma_2f_numeric)
qed

lemma column_sum_quantity:
  "quantity_schema df \<Longrightarrow> column_sum df ''quantity'' = Inr (IntV (int_total df ''quantity''))"
  by (simp add: quantity_schema_def column_sum_def getitem_def bindE_def series_sum_def
      sum_from_integral list_all_iff int_total_def o_def)

lemma total_quantity_schema:
  "quantity_schema df \<Longrightarrow> total_quantity df = Inr (fmt_int (int_total df ''quantity''))"
  by (frule column_sum_quantity) (simp add: total_quantity_def quantity_schema_def bindE_def)

lemma summary_entry_ok:
  "has_column ''status'' df \<Longrightarrow> completed = Inr k \<Longrightarrow> aggregate = Inr a \<Longrightarrow>
   summary_entry dept df completed key aggregate =
     Inr [(''Department'', SStr dept), (''Total Records'', SInt (length (rows df))),
          (''Pending'', SInt (count_status df [''Pending''])), (''Completed'', SInt k),
          (key, SStr a)]"
  by (simp add: summary_entry_def len_status_eq_count bindE_def len_def)

lemma create_summary_schema:
  assumes "purchase_schema pu" "quantity_schema pr" "quantity_schema pk" "quantity_schema sh"
  shows "create_summary pu pr pk sh = Inr
    [[(''Department'', SStr ''Purchase''), (''Total Records'', SInt (length (rows pu))),
      (''Pending'', SInt (count_status pu [''Pending''])),
      (''Completed'', SInt (count_status pu [''Approved'', ''Delivered''])),
      (''Total Value'', SStr (currency_prefix @ fmt_2f (real_total pu ''amount'')))],
     [(''Department'', SStr ''Production''), (''Total Records'', SInt (length (rows pr))),
      (''Pending'', SInt (count_status pr [''Pending''])),
      (''Completed'', SInt (count_status pr [''Completed''])),
      (''Total Quantity'', SStr (fmt_int (int_total pr ''quantity'')))],
     [(''Department'', SStr ''Packing''), (''Total Records'', SInt (length (rows pk))),
      (''Pending'', SInt (count_status pk [''Pending''])),
      (''Completed'', SInt (count_status pk [''Completed''])),
      (''Total Packed'', SStr (fmt_int (int_total pk ''quantity'')))],
     [(''Department'', SStr ''Shipment''), (''Total Records'', SInt (length (rows sh))),
      (''Pending'', SInt (count_status sh [''Pending''])),
      (''Completed'', SInt (count_status sh [''Delivered''])),
      (''Total Shipped'', SStr (fmt_int (int_total sh ''quantity'')))]]"
proof -
  have st: "has_column ''status'' pu" "has_column ''status'' pr" "has_column ''status'' pk"
      "has_column ''status'' sh"
    using assms by (simp_all add: purchase_schema_def quantity_schema_def)
  show ?thesis
    unfolding create_summary_def
    by (simp add: summary_entry_ok [OF st(1) len_status_isin_count [OF st(1)] total_value_schema [OF assms(1)]]
        summary_entry_ok [OF st(2) len_status_eq_count [OF st(2)] total_quantity_schema [OF assms(2)]]
        summary_entry_ok [OF st(3) len_status_eq_count [OF st(3)] total_quantity_schema [OF assms(3)]]
        summary_entry_ok [OF st(4) len_status_eq_count [OF st(4)] total_quantity_schema [OF assms(4)]]
        bindE_def)
qed



lemma schema_empty:
  "purchase_schema (empty_frame purchase_columns)"
  "quantity_schema (empty_frame production_columns)"
  "quantity_schema (empty_frame packing_columns)"
  "quantity_schema (empty_frame shipment_columns)"
  by (simp_all add: purchase_schema_def quantity_schema_def empty_frame_def has_column_def
      purchase_columns_def production_columns_def packing_columns_def shipment_columns_def)

lemma schema_shipment_of: "quantity_schema (shipment_of st)"
  by (simp add: quantity_schema_def shipment_of_def has_column_def shipment_columns_def
      quantity_row_def)

lemma schema_example_purchase: "purchase_schema example_purchase"
  by (simp add: purchase_schema_def example_purchase_def has_column_def purchase_columns_def
      purchase_row_def)

lemma fmt_zero: "fmt_2f 0 = ''0.00''" "fmt_int 0 = ''0''"
  by (simp_all add: fmt_2f_def fmt_int_def round_half_even_def digits.simps group3.simps)

lemma totals_empty:
  "rows df = [] \<Longrightarrow> count_status df vs = 0"
  "rows df = [] \<Longrightarrow> real_total df name = 0"
  "rows df = [] \<Longrightarrow> int_total df name = 0"
  by (simp_all add: count_status_def real_total_def int_total_def)



text \<open>
  Claim C9. For each kind, a dataset that has its schema columns and no rows gets an entry
  whose Total Records, Pending and Completed are zero and whose total is the rendering of
  zero; the computation returns a summary and does not fail.
\<close>

theorem empty_dataset_summary:
  assumes "purchase_schema purchase_df" "quantity_schema production_df"
    "quantity_schema packing_df" "quantity_schema shipment_df"
  shows "\<exists>e1 e2 e3 e4.
    create_summary purchase_df production_df packing_df shipment_df = Inr [e1, e2, e3, e4] \<and>
    (rows purchase_df = [] \<longrightarrow> e1 =
       [(''Department'', SStr ''Purchase''), (''Total Records'', SInt 0), (''Pending'', SInt 0),
        (''Completed'', SInt 0), (''Total Value'', SStr (currency_prefix @ ''0.00''))]) \<and>
    (rows production_df = [] \<longrightarrow> e2 =
       [(''Department'', SStr ''Production''), (''Total Records'', SInt 0), (''Pending'', SInt 0),
        (''Completed'', SInt 0), (''Total Quantity'', SStr ''0'')]) \<and>
    (rows packing_df = [] \<longrightarrow> e3 =
       [(''Department'', SStr ''Packing''), (''Total Records'', SInt 0), (''Pending'', SInt 0),
        (''Completed'', SInt 0), (''Total Packed'', SStr ''0'')]) \<and>
    (rows shipment_df = [] \<longrightarrow> e4 =
       [(''Department'', SStr ''Shipment''), (''Total Records'', SInt 0), (''Pending'', SInt 0),
        (''Completed'', SInt 0), (''Total Shipped'', SStr ''0'')])"
  using create_summary_schema [OF assms] by (simp add: totals_empty fmt_zero)

theorem empty_dataset_summary_witness:
  "purchase_schema (empty_frame purchase_columns) \<and>
   quantity_schema (empty_frame production_columns) \<and>
   quantity_schema (empty_frame packing_columns) \<and>
   quantity_schema (empty_frame shipment_columns) \<and>
   create_summary (empty_frame purchase_columns) (empty_frame production_columns)
       (empty_frame packing_columns) (empty_frame shipment_columns) = Inr
     [[(''Department'', SStr ''Purchase''), (''Total Records'', SInt 0), (''Pending'', SInt 0),
       (''Completed'', SInt 0), (''Total Value'', SStr (currency_prefix @ ''0.00''))],
      [(''Department'', SStr ''Production''), (''Total Records'', SInt 0), (''Pending'', SInt 0),
       (''Completed'', SInt 0), (''Total Quantity'', SStr ''0'')],
      [(''Department'', SStr ''Packing''), (''Total Records'', SInt 0), (''Pending'', SInt 0),
       (''Completed'', SInt 0), (''Total Packed'', SStr ''0'')],
      [(''Department'', SStr ''Shipment''), (''Total Records'', SInt 0), (''Pending'', SInt 0),
       (''Completed'', SInt 0), (''Total Shipped'', SStr ''0'')]]"
proof -
  have r: "rows (empty_frame cols) = []" for cols
    by (simp add: empty_frame_def)
  from empty_dataset_summary [OF schema_empty] r show ?thesis
    by (auto simp: schema_empty)
qed






text \<open>
  Claim C10. Before the first publish the department read answers 404, No data available,
  for every name; after a publish a name outside the four kinds gets 400, Invalid department.
  In both cases no data is returned and the shared state is unchanged.
\<close>

theorem get_department_data_errors:
  "(last_updated ld = None \<longrightarrow>
      get_department_data dept_name ld =
        (Inr (JObject [(''error'', JString ''No data available'')], 404), ld)) \<and>
   (last_updated ld \<noteq> None \<longrightarrow>
      dept_name \<notin> {''purchase'', ''production'', ''packing'', ''shipment''} \<longrightarrow>
      get_department_data dept_name ld =
        (Inr (JObject [(''error'', JString ''Invalid department'')], 400), ld))"
  by (auto simp: get_department_data_def)


theorem get_department_data_errors_witness:
  "last_updated initial_data = None \<and>
   get_department_data ''purchase'' initial_data =
     (Inr (JObject [(''error'', JString ''No data available'')], 404), initial_data) \<and>
   get_department_data ''finance'' initial_data =
     (Inr (JObject [(''error'', JString ''No data available'')], 404), initial_data) \<and>
   last_updated (snapshot_at example_purchase (empty_frame production_columns)
       (empty_frame packing_columns) (shipment_of ''Dispatched'') example_time) \<noteq> None \<and>
   ''finance'' \<notin> {''purchase'', ''production'', ''packing'', ''shipment''} \<and>
   get_department_data ''finance'' (snapshot_at example_purchase (empty_frame production_columns)
       (empty_frame packing_columns) (shipment_of ''Dispatched'') example_time) =
     (Inr (JObject [(''error'', JString ''Invalid department'')], 400),
      snapshot_at example_purchase (empty_frame production_columns)
       (empty_frame packing_columns) (shipment_of ''Dispatched'') example_time)"
proof -
  have a: "last_updated initial_data = None"
    by (simp add: initial_data_def)
  have b: "last_updated (snapshot_at example_purchase (empty_frame production_columns)
       (empty_frame packing_columns) (shipment_of ''Dispatched'') example_time) \<noteq> None"
    by (simp add: snapshot_at_def)
  have c: "''finance'' \<notin> {''purchase'', ''production'', ''packing'', ''shipment''}"
    by simp
  show ?thesis
    using get_department_data_errors [of initial_data "''purchase''"]
      get_department_data_errors [of initial_data "''finance''"]
      get_department_data_errors [of "snapshot_at example_purchase (empty_frame production_columns)
       (empty_frame packing_columns) (shipment_of ''Dispatched'') example_time" "''finance''"]
      a b c
    by simp
qed

section \<open>Properties of the retention sweep\<close>

lemma files_after_cleanup:
  "map fst (files (cleanup_old_reports (quiet_filesystem 0) (100 * 86400) 30 stale_reports))
     = [''reports/.gitkeep'']"
  by (simp add: cleanup_old_reports_def rglob_def stale_reports_def log_info_def report_dir_def
      csv_dir_def below_def basename_def match_underscore_def quiet_filesystem_def
      AList.delete_eq Let_def)

text \<open>
  Claim C2. The sweep is meant to spare the latest files, but its patterns \<open>*_*.xlsx\<close> and
  \<open>*_*.csv\<close> also match \<open>daily_report.xlsx\<close> and the four \<open><kind>_data.csv\<close>, whose
  names contain an underscore. In a directory whose latest files are 100 days old, a sweep
  with a limit of 30 days deletes all five of them.
\<close>

theorem cleanup_deletes_latest:
  "map (\<lambda>p. map_of (files stale_reports) p \<noteq> None) latest_paths
     = [True, True, True, True, True] \<and>
   map (\<lambda>p. map_of (files (cleanup_old_reports (quiet_filesystem 0) (100 * 86400) 30
                  stale_reports)) p) latest_paths
     = [None, None, None, None, None]"
proof -
  have "map (\<lambda>p. map_of (files stale_reports) p \<noteq> None) latest_paths
     = [True, True, True, True, True]"
    by (simp add: stale_reports_def latest_paths_def excel_latest_filename_def
        csv_latest_filename_def report_dir_def csv_dir_def)
  moreover have "fst ` set (files (cleanup_old_reports (quiet_filesystem 0) (100 * 86400) 30
                  stale_reports)) = {''reports/.gitkeep''}"
    using arg_cong [OF files_after_cleanup, of set] by simp
  then have "map_of (files (cleanup_old_reports (quiet_filesystem 0) (100 * 86400) 30
                  stale_reports)) p = None" if "p \<noteq> ''reports/.gitkeep''" for p
    using that by (simp add: map_of_eq_None_iff)
  then have "map (\<lambda>p. map_of (files (cleanup_old_reports (quiet_filesystem 0) (100 * 86400) 30
                  stale_reports)) p) latest_paths = [None, None, None, None, None]"
    by (simp add: latest_paths_def excel_latest_filename_def csv_latest_filename_def
        report_dir_def csv_dir_def)
  ultimately show ?thesis by simp
qed

section \<open>Properties of the report writer\<close>

lemma files_log_info [simp]: "files (log_info m w) = files w"
  by (simp add: log_info_def)

lemma files_log_error [simp]: "files (log_error m w) = files w"
  by (simp add: log_error_def)

lemma write_file_other:
  "write_file pf p d w = (r, w') \<Longrightarrow> q \<noteq> p \<Longrightarrow> map_of (files w') q = map_of (files w) q"
  by (auto simp: write_file_def update_conv' split: outcome.splits)

lemma write_file_done:
  "write_file pf p d w = (None, w') \<Longrightarrow> map_of (files w') p = Some d"
  by (auto simp: write_file_def update_conv' split: outcome.splits)

lemma csv_names_inject [simp]:
  "csv_filename m now = csv_filename n now \<longleftrightarrow> m = n"
  "csv_latest_filename m = csv_latest_filename n \<longleftrightarrow> m = n"
  by (simp_all add: csv_filename_def csv_latest_filename_def)

lemma csv_loop_other:
  "csv_loop pf now ds w = (r, w') \<Longrightarrow>
   \<forall>n \<in> fst ` set ds. q \<noteq> csv_filename n now \<and> q \<noteq> csv_latest_filename n \<Longrightarrow>
   map_of (files w') q = map_of (files w) q"
proof (induction ds arbitrary: w)
  case Nil
  then show ?case by simp
next
  case (Cons a ds)
  obtain name df where a: "a = (name, df)" by (cases a)
  obtain f1 w1 where w1: "write_file pf (csv_filename name now) (to_csv pf df) w = (f1, w1)"
    by (cases "write_file pf (csv_filename name now) (to_csv pf df) w")
  obtain f2 w2 where w2: "write_file pf (csv_latest_filename name) (to_csv pf df) w1 = (f2, w2)"
    by (cases "write_file pf (csv_latest_filename name) (to_csv pf df) w1")
  from Cons.prems(2) a have q: "q \<noteq> csv_filename name now" "q \<noteq> csv_latest_filename name"
    and rest: "\<forall>n \<in> fst ` set ds. q \<noteq> csv_filename n now \<and> q \<noteq> csv_latest_filename n"
    by auto
  have q1: "map_of (files w1) q = map_of (files w) q"
    using write_file_other [OF w1 q(1)] .
  have q2: "map_of (files w2) q = map_of (files w1) q"
    using write_file_other [OF w2 q(2)] .
  show ?case
  proof (cases f1)
    case (Some e)
    with Cons.prems(1) a w1 q1 show ?thesis by simp
  next
    case None
    note f1 = this
    show ?thesis
    proof (cases f2)
      case (Some e)
      with Cons.prems(1) a w1 w2 f1 q1 q2 show ?thesis by simp
    next
      case None
      with Cons.prems(1) a w1 w2 f1
      have "csv_loop pf now ds (log_info (''CSV exported: '' @ csv_filename name now) w2) = (r, w')"
        by simp
      from Cons.IH [OF this rest] q1 q2 show ?thesis by simp
    qed
  qed
qed

lemma csv_loop_latest:
  assumes "csv_loop pf now ds w = (r, w')"
    and "distinct (map fst ds)"
    and "\<forall>m \<in> fst ` set ds. \<forall>n \<in> fst ` set ds. csv_latest_filename m \<noteq> csv_filename n now"
    and "(name, df) \<in> set ds"
  shows "(map_of (files w') (csv_latest_filename name) \<noteq> map_of (files w) (csv_latest_filename name)
           \<longrightarrow> map_of (files w') (csv_filename name now) = Some (to_csv pf df)) \<and>
         (r = None \<longrightarrow> map_of (files w') (csv_latest_filename name) = Some (to_csv pf df) \<and>
                       map_of (files w') (csv_filename name now) = Some (to_csv pf df))"
  using assms
proof (induction ds arbitrary: w)
  case Nil
  then show ?case by simp
next
  case (Cons a ds)
  obtain n0 d0 where a: "a = (n0, d0)" by (cases a)
  obtain f1 w1 where w1: "write_file pf (csv_filename n0 now) (to_csv pf d0) w = (f1, w1)"
    by (cases "write_file pf (csv_filename n0 now) (to_csv pf d0) w")
  obtain f2 w2 where w2: "write_file pf (csv_latest_filename n0) (to_csv pf d0) w1 = (f2, w2)"
    by (cases "write_file pf (csv_latest_filename n0) (to_csv pf d0) w1")
  let ?w3 = "log_info (''CSV exported: '' @ csv_filename n0 now) w2"
  from Cons.prems(2) a have fresh: "n0 \<notin> fst ` set ds" and dist: "distinct (map fst ds)"
    by auto
  from Cons.prems(3) a
  have sep0: "\<And>m. m = n0 \<or> m \<in> fst ` set ds \<Longrightarrow> csv_latest_filename m \<noteq> csv_filename n0 now"
    and sep1: "\<And>n. n \<in> fst ` set ds \<Longrightarrow> csv_latest_filename n0 \<noteq> csv_filename n now"
    and sep: "\<forall>m \<in> fst ` set ds. \<forall>n \<in> fst ` set ds. csv_latest_filename m \<noteq> csv_filename n now"
    by auto
  have loop: "f1 = None \<Longrightarrow> f2 = None \<Longrightarrow> csv_loop pf now ds ?w3 = (r, w')"
    using Cons.prems(1) a w1 w2 by simp
  have stop1: "f1 \<noteq> None \<Longrightarrow> r \<noteq> None \<and> w' = w1"
    using Cons.prems(1) a w1 by auto
  have stop2: "f1 = None \<Longrightarrow> f2 \<noteq> None \<Longrightarrow> r \<noteq> None \<and> w' = w2"
    using Cons.prems(1) a w1 w2 by auto
  show ?case
  proof (cases "name = n0")
    case True
    with Cons.prems(4) a fresh have df: "df = d0"
      by (auto simp: image_iff)
    have l1: "map_of (files w1) (csv_latest_filename n0) = map_of (files w) (csv_latest_filename n0)"
      using write_file_other [OF w1] sep0 [of n0] by simp
    have s2: "f1 = None \<Longrightarrow> map_of (files w2) (csv_filename n0 now) = Some (to_csv pf d0)"
      using write_file_other [OF w2, of "csv_filename n0 now"] sep0 [of n0]
        write_file_done [of pf "csv_filename n0 now" "to_csv pf d0" w w1] w1
      by auto
    have l2: "f2 = None \<Longrightarrow> map_of (files w2) (csv_latest_filename n0) = Some (to_csv pf d0)"
      using write_file_done [of pf "csv_latest_filename n0" "to_csv pf d0" w1 w2] w2 by simp
    have keep: "f1 = None \<Longrightarrow> f2 = None \<Longrightarrow>
        map_of (files w') (csv_filename n0 now) = map_of (files w2) (csv_filename n0 now) \<and>
        map_of (files w') (csv_latest_filename n0) = map_of (files w2) (csv_latest_filename n0)"
    proof -
      assume f: "f1 = None" "f2 = None"
      have "\<forall>n \<in> fst ` set ds. csv_filename n0 now \<noteq> csv_filename n now \<and>
              csv_filename n0 now \<noteq> csv_latest_filename n"
        using fresh sep0 by (metis csv_names_inject(1))
      moreover have "\<forall>n \<in> fst ` set ds. csv_latest_filename n0 \<noteq> csv_filename n now \<and>
              csv_latest_filename n0 \<noteq> csv_latest_filename n"
        using fresh sep1 by (metis csv_names_inject(2))
      ultimately show ?thesis
        using csv_loop_other [OF loop [OF f]] by simp
    qed
    show ?thesis
    proof (cases f1)
      case (Some e)
      with stop1 l1 True show ?thesis by auto
    next
      case None
      note f1 = this
      show ?thesis
      proof (cases f2)
        case (Some e)
        with stop2 [OF f1] s2 [OF f1] True df show ?thesis by auto
      next
        case None
        with keep [OF f1] s2 [OF f1] l2 True df show ?thesis by auto
      qed
    qed
  next
    case False
    with Cons.prems(4) a have mem: "(name, df) \<in> set ds" by simp
    then have nm: "name \<in> fst ` set ds" by (force simp: image_iff)
    have l1: "map_of (files w1) (csv_latest_filename name) = map_of (files w) (csv_latest_filename name)"
      using write_file_other [OF w1] sep0 [of name] nm by simp
    have l2: "map_of (files w2) (csv_latest_filename name) = map_of (files w1) (csv_latest_filename name)"
      using write_file_other [OF w2] False by simp
    show ?thesis
    proof (cases f1)
      case (Some e)
      with stop1 l1 show ?thesis by auto
    next
      case None
      note f1 = this
      show ?thesis
      proof (cases f2)
        case (Some e)
        with stop2 [OF f1] l1 l2 show ?thesis by auto
      next
        case None
        from Cons.IH [OF loop [OF f1 None] dist sep mem] l1 l2 show ?thesis by auto
      qed
    qed
  qed
qed

lemma excel_names_differ [simp]: "excel_latest_filename \<noteq> excel_filename now"
  by (simp add: excel_latest_filename_def excel_filename_def report_dir_def)

lemma excel_try_latest:
  assumes "excel_try pf now pu pr pk sh w = (r, w')"
  shows "(map_of (files w') excel_latest_filename \<noteq> map_of (files w) excel_latest_filename \<or> r = None
           \<longrightarrow> fst (workbook_sheets pu pr pk sh) = None \<and>
               map_of (files w') (excel_filename now)
                 = Some (to_excel pf (snd (workbook_sheets pu pr pk sh)))) \<and>
         (r = None \<longrightarrow> map_of (files w') excel_latest_filename = map_of (files w') (excel_filename now))"
proof -
  obtain raised sheets where ws: "workbook_sheets pu pr pk sh = (raised, sheets)"
    by (cases "workbook_sheets pu pr pk sh")
  obtain f1 w1 where w1: "write_file pf (excel_filename now) (to_excel pf sheets) w = (f1, w1)"
    by (cases "write_file pf (excel_filename now) (to_excel pf sheets) w")
  have l1: "map_of (files w1) excel_latest_filename = map_of (files w) excel_latest_filename"
    using write_file_other [OF w1] by simp
  show ?thesis
  proof (cases "write_result pf (excel_filename now) = Denied \<or> f1 \<noteq> None \<or> raised \<noteq> None")
    case True
    with assms ws w1 have "r \<noteq> None" "w' = w \<or> w' = w1"
      by (auto simp: excel_try_def Let_def split: if_splits option.splits)
    with l1 show ?thesis by auto
  next
    case False
    then have ok: "f1 = None" "raised = None" "write_result pf (excel_filename now) \<noteq> Denied"
      by auto
    have s1: "map_of (files w1) (excel_filename now) = Some (to_excel pf sheets)"
      using write_file_done w1 ok(1) by blast
    obtain f2 w2 where w2: "write_file pf excel_latest_filename (to_excel pf sheets) w1 = (f2, w2)"
      by (cases "write_file pf excel_latest_filename (to_excel pf sheets) w1")
    have s2: "map_of (files w2) (excel_filename now) = Some (to_excel pf sheets)"
      using write_file_other [OF w2, of "excel_filename now"] s1 excel_names_differ [of now]
      by (simp del: excel_names_differ)
    have l2: "f2 = None \<Longrightarrow> map_of (files w2) excel_latest_filename = Some (to_excel pf sheets)"
      using write_file_done w2 by blast
    from assms ws w1 w2 ok s1
    have "(r = f2) \<and> files w' = files w2"
      by (auto simp: excel_try_def copy_file_def Let_def split: if_splits option.splits)
    with s2 l2 ws ok show ?thesis by auto
  qed
qed

lemma csv_datasets_names:
  "distinct (map fst (csv_datasets pu pr pk sh))"
  "\<forall>m \<in> fst ` set (csv_datasets pu pr pk sh). \<forall>n \<in> fst ` set (csv_datasets pu pr pk sh).
     csv_latest_filename m \<noteq> csv_filename n now"
  by (simp_all add: csv_datasets_def csv_latest_filename_def csv_filename_def)

text \<open>
  Claim C3, as amended. Each artifact is written under its timestamped name first. The
  latest workbook is a copy of the timestamped one, made after the workbook has been saved
  in full; the latest file of a kind is written, by serializing the frame a second time,
  after the timestamped file of that kind has been written in full. So a latest file changes
  only if its timestamped sibling holds the complete serialization, and after a call that
  raises nothing the latest file and the timestamped file, which remains, hold the same
  bytes. A failure ends the call there: nothing is rolled back.
\<close>

theorem latest_written_after_timestamped:
  "(generate_excel_reports pf now pu pr pk sh w = (r, w') \<longrightarrow>
      (map_of (files w') excel_latest_filename \<noteq> map_of (files w) excel_latest_filename \<or> r = None
         \<longrightarrow> fst (workbook_sheets pu pr pk sh) = None \<and>
             map_of (files w') (excel_filename now)
               = Some (to_excel pf (snd (workbook_sheets pu pr pk sh)))) \<and>
      (r = None \<longrightarrow>
         map_of (files w') excel_latest_filename = map_of (files w') (excel_filename now))) \<and>
   (generate_csv_exports pf now pu pr pk sh v = (r2, v') \<longrightarrow>
    (name, df) \<in> set (csv_datasets pu pr pk sh) \<longrightarrow>
      (map_of (files v') (csv_latest_filename name) \<noteq> map_of (files v) (csv_latest_filename name)
         \<longrightarrow> map_of (files v') (csv_filename name now) = Some (to_csv pf df)) \<and>
      (r2 = None \<longrightarrow>
         map_of (files v') (csv_latest_filename name) = Some (to_csv pf df) \<and>
         map_of (files v') (csv_filename name now) = Some (to_csv pf df)))"
proof (intro conjI impI)
  assume run: "generate_excel_reports pf now pu pr pk sh w = (r, w')"
  obtain r0 w0 where t: "excel_try pf now pu pr pk sh (log_info ''Generating Excel reports...'' w) = (r0, w0)"
    by (cases "excel_try pf now pu pr pk sh (log_info ''Generating Excel reports...'' w)")
  with run have eq: "r = r0" "files w' = files w0"
    by (auto simp: generate_excel_reports_def split: option.splits)
  note e = excel_try_latest [OF t]
  { assume "map_of (files w') excel_latest_filename \<noteq> map_of (files w) excel_latest_filename \<or> r = None"
    with e eq show "fst (workbook_sheets pu pr pk sh) = None" by simp
  next
    assume "map_of (files w') excel_latest_filename \<noteq> map_of (files w) excel_latest_filename \<or> r = None"
    with e eq show "map_of (files w') (excel_filename now)
               = Some (to_excel pf (snd (workbook_sheets pu pr pk sh)))" by simp
  next
    assume "r = None"
    with e eq show "map_of (files w') excel_latest_filename = map_of (files w') (excel_filename now)"
      by simp }
next
  assume run: "generate_csv_exports pf now pu pr pk sh v = (r2, v')"
    and mem: "(name, df) \<in> set (csv_datasets pu pr pk sh)"
  obtain r0 v0 where t: "csv_loop pf now (csv_datasets pu pr pk sh)
      (log_info ''Generating CSV exports...'' v) = (r0, v0)"
    by (cases "csv_loop pf now (csv_datasets pu pr pk sh) (log_info ''Generating CSV exports...'' v)")
  with run have eq: "r2 = r0" "files v' = files v0"
    by (auto simp: generate_csv_exports_def Let_def split: option.splits)
  note c = csv_loop_latest [OF t csv_datasets_names mem]
  { assume "map_of (files v') (csv_latest_filename name) \<noteq> map_of (files v) (csv_latest_filename name)"
    with c eq show "map_of (files v') (csv_filename name now) = Some (to_csv pf df)" by simp
  next
    assume "r2 = None"
    with c eq show "map_of (files v') (csv_latest_filename name) = Some (to_csv pf df)" by simp
  next
    assume "r2 = None"
    with c eq show "map_of (files v') (csv_filename name now) = Some (to_csv pf df)" by simp }
qed

lemma stamp_example: "strftime_stamp example_time = ''20240307_080005''"
  by (simp add: strftime_stamp_def example_time_def pad2_def digits.simps)

lemma csv_export_interrupted:
  "generate_csv_exports (demo_platform (deny_at (csv_filename ''production_data'' example_time)))
     example_time example_purchase (empty_frame production_columns)
     (empty_frame packing_columns) (empty_frame shipment_columns) stale_reports =
   (Some (OSError ''Permission denied''),
    \<lparr>files = [(''reports/daily_report.xlsx'', ''old workbook''),
      (''reports/daily_report_20240101_080000.xlsx'', ''old workbook''),
      (''reports/csv/purchase_data.csv'',
       ''po_id,vendor_name,item_name,quantity,unit_price,order_date,delivery_date,status,amount,''),
      (''reports/csv/production_data.csv'', ''old production''),
      (''reports/csv/packing_data.csv'', ''old packing''),
      (''reports/csv/shipment_data.csv'', ''old shipment''),
      (''reports/.gitkeep'', []),
      (''reports/csv/purchase_data_20240307_080005.csv'',
       ''po_id,vendor_name,item_name,quantity,unit_price,order_date,delivery_date,status,amount,'')],
     log = [(INFO, ''Generating CSV exports...''),
        (INFO, ''CSV exported: reports/csv/purchase_data_20240307_080005.csv''),
        (ERROR, ''Failed to generate CSV exports: Permission denied'')]\<rparr>)"
  by (simp add: Let_def generate_csv_exports_def csv_datasets_def demo_platform_def deny_at_def csv_filename_def
      csv_latest_filename_def csv_dir_def report_dir_def stamp_example write_file_def
      stale_reports_def log_info_def log_error_def example_purchase_def purchase_columns_def)

text \<open>
  The export of the production data is refused: the call raises, and the latest purchase
  file has already been replaced.
\<close>

theorem latest_partially_updated_counterexample:
  "fst (generate_csv_exports (demo_platform (deny_at (csv_filename ''production_data'' example_time)))
     example_time example_purchase (empty_frame production_columns)
     (empty_frame packing_columns) (empty_frame shipment_columns) stale_reports)
     = Some (OSError ''Permission denied'') \<and>
   map_of (files stale_reports) (csv_latest_filename ''purchase_data'') = Some ''old purchase'' \<and>
   map_of (files (snd (generate_csv_exports
       (demo_platform (deny_at (csv_filename ''production_data'' example_time)))
       example_time example_purchase (empty_frame production_columns)
       (empty_frame packing_columns) (empty_frame shipment_columns) stale_reports)))
     (csv_latest_filename ''purchase_data'')
     = Some ''po_id,vendor_name,item_name,quantity,unit_price,order_date,delivery_date,status,amount,''"
  by (simp add: csv_export_interrupted)
    (simp add: stale_reports_def csv_latest_filename_def csv_dir_def report_dir_def)

lemma excel_report_done:
  "generate_excel_reports (demo_platform (\<lambda>p. Completed)) example_time example_purchase
     (empty_frame production_columns) (empty_frame packing_columns)
     (empty_frame shipment_columns) stale_reports =
   (None,
    \<lparr>files = [(''reports/daily_report.xlsx'', ''Purchase;Production;Packing;Shipment;Summary;''),
      (''reports/daily_report_20240101_080000.xlsx'', ''old workbook''),
      (''reports/csv/purchase_data.csv'', ''old purchase''),
      (''reports/csv/production_data.csv'', ''old production''),
      (''reports/csv/packing_data.csv'', ''old packing''),
      (''reports/csv/shipment_data.csv'', ''old shipment''),
      (''reports/.gitkeep'', []),
      (''reports/daily_report_20240307_080005.xlsx'',
       ''Purchase;Production;Packing;Shipment;Summary;'')],
     log = [(INFO, ''Generating Excel reports...''),
        (INFO, ''Excel report generated: reports/daily_report_20240307_080005.xlsx'')]\<rparr>)"
proof -
  have "\<exists>s. create_summary example_purchase (empty_frame production_columns)
      (empty_frame packing_columns) (empty_frame shipment_columns) = Inr s"
    using create_summary_schema [OF schema_example_purchase schema_empty(2,3,4)] by simp
  then obtain s where "create_summary example_purchase (empty_frame production_columns)
      (empty_frame packing_columns) (empty_frame shipment_columns) = Inr s" ..
  then show ?thesis
    by (simp add: Let_def generate_excel_reports_def excel_try_def workbook_sheets_def demo_platform_def
      excel_filename_def excel_latest_filename_def report_dir_def stamp_example write_file_def
      copy_file_def stale_reports_def log_info_def)
qed

lemma csv_export_done:
  "generate_csv_exports (demo_platform (\<lambda>p. Completed)) example_time example_purchase
     (empty_frame production_columns) (empty_frame packing_columns)
     (empty_frame shipment_columns) stale_reports =
   (None,
    \<lparr>files = [(''reports/daily_report.xlsx'', ''old workbook''),
      (''reports/daily_report_20240101_080000.xlsx'', ''old workbook''),
      (''reports/csv/purchase_data.csv'',
       ''po_id,vendor_name,item_name,quantity,unit_price,order_date,delivery_date,status,amount,''),
      (''reports/csv/production_data.csv'',
       ''production_id,product_name,batch_no,quantity,unit,start_date,end_date,status,department,''),
      (''reports/csv/packing_data.csv'',
       ''packing_id,product_name,quantity,package_type,packing_date,status,operator,''),
      (''reports/csv/shipment_data.csv'',
       ''shipment_id,customer_name,destination,quantity,shipment_date,expected_delivery,status,transporter,''),
      (''reports/.gitkeep'', []),
      (''reports/csv/purchase_data_20240307_080005.csv'',
       ''po_id,vendor_name,item_name,quantity,unit_price,order_date,delivery_date,status,amount,''),
      (''reports/csv/production_data_20240307_080005.csv'',
       ''production_id,product_name,batch_no,quantity,unit,start_date,end_date,status,department,''),
      (''reports/csv/packing_data_20240307_080005.csv'',
       ''packing_id,product_name,quantity,package_type,packing_date,status,operator,''),
      (''reports/csv/shipment_data_20240307_080005.csv'',
       ''shipment_id,customer_name,destination,quantity,shipment_date,expected_delivery,status,transporter,'')],
     log = [(INFO, ''Generating CSV exports...''),
        (INFO, ''CSV exported: reports/csv/purchase_data_20240307_080005.csv''),
        (INFO, ''CSV exported: reports/csv/production_data_20240307_080005.csv''),
        (INFO, ''CSV exported: reports/csv/packing_data_20240307_080005.csv''),
        (INFO, ''CSV exported: reports/csv/shipment_data_20240307_080005.csv'')]\<rparr>)"
  by (simp add: Let_def generate_csv_exports_def csv_datasets_def demo_platform_def csv_filename_def
      csv_latest_filename_def csv_dir_def report_dir_def stamp_example write_file_def
      stale_reports_def log_info_def example_purchase_def purchase_columns_def
      production_columns_def packing_columns_def shipment_columns_def empty_frame_def)

theorem latest_written_after_timestamped_witness:
  "fst example_excel_run = None \<and>
   map_of (files (snd example_excel_run)) excel_latest_filename
     \<noteq> map_of (files stale_reports) excel_latest_filename \<and>
   map_of (files (snd example_excel_run)) (excel_filename example_time)
     = Some ''Purchase;Production;Packing;Shipment;Summary;'' \<and>
   map_of (files (snd example_excel_run)) excel_latest_filename
     = Some ''Purchase;Production;Packing;Shipment;Summary;'' \<and>
   fst example_csv_run = None \<and>
   (''purchase_data'', example_purchase) \<in> set (csv_datasets example_purchase
      (empty_frame production_columns) (empty_frame packing_columns)
      (empty_frame shipment_columns)) \<and>
   map_of (files (snd example_csv_run)) (csv_latest_filename ''purchase_data'')
     \<noteq> map_of (files stale_reports) (csv_latest_filename ''purchase_data'') \<and>
   map_of (files (snd example_csv_run)) (csv_filename ''purchase_data'' example_time)
     = Some ''po_id,vendor_name,item_name,quantity,unit_price,order_date,delivery_date,status,amount,'' \<and>
   map_of (files (snd example_csv_run)) (csv_latest_filename ''purchase_data'')
     = Some ''po_id,vendor_name,item_name,quantity,unit_price,order_date,delivery_date,status,amount,''"
proof -
  have x: "fst example_excel_run = None"
    "map_of (files (snd example_excel_run)) excel_latest_filename
       \<noteq> map_of (files stale_reports) excel_latest_filename"
    by (simp_all only: example_excel_run_def excel_report_done)
      (simp_all add: stale_reports_def excel_latest_filename_def report_dir_def)
  have c: "fst example_csv_run = None"
    "map_of (files (snd example_csv_run)) (csv_latest_filename ''purchase_data'')
       \<noteq> map_of (files stale_reports) (csv_latest_filename ''purchase_data'')"
    by (simp_all only: example_csv_run_def csv_export_done)
      (simp_all add: stale_reports_def csv_latest_filename_def csv_dir_def report_dir_def)
  have m: "(''purchase_data'', example_purchase) \<in> set (csv_datasets example_purchase
      (empty_frame production_columns) (empty_frame packing_columns)
      (empty_frame shipment_columns))"
    by (simp add: csv_datasets_def)
  obtain s where s: "create_summary example_purchase (empty_frame production_columns)
      (empty_frame packing_columns) (empty_frame shipment_columns) = Inr s"
    using create_summary_schema [OF schema_example_purchase schema_empty(2,3,4)] by simp
  have r: "to_excel (demo_platform (\<lambda>p. Completed)) (snd (workbook_sheets example_purchase
      (empty_frame production_columns) (empty_frame packing_columns)
      (empty_frame shipment_columns))) = ''Purchase;Production;Packing;Shipment;Summary;''"
    by (simp add: workbook_sheets_def demo_platform_def s Let_def)
  have t: "to_csv (demo_platform (\<lambda>p. Completed)) example_purchase
      = ''po_id,vendor_name,item_name,quantity,unit_price,order_date,delivery_date,status,amount,''"
    by (simp add: demo_platform_def example_purchase_def purchase_columns_def)
  have e1: "generate_excel_reports (demo_platform (\<lambda>p. Completed)) example_time
     example_purchase (empty_frame production_columns) (empty_frame packing_columns)
     (empty_frame shipment_columns) stale_reports = (None, snd example_excel_run)"
    using x(1) by (simp add: example_excel_run_def prod_eq_iff)
  have c1: "generate_csv_exports (demo_platform (\<lambda>p. Completed)) example_time
     example_purchase (empty_frame production_columns) (empty_frame packing_columns)
     (empty_frame shipment_columns) stale_reports = (None, snd example_csv_run)"
    using c(1) by (simp add: example_csv_run_def prod_eq_iff)
  show ?thesis
    using latest_written_after_timestamped [of "demo_platform (\<lambda>p. Completed)" example_time
        example_purchase "empty_frame production_columns" "empty_frame packing_columns"
        "empty_frame shipment_columns" stale_reports None
        "snd example_excel_run" stale_reports None "snd example_csv_run"
        "''purchase_data''" example_purchase]
      e1 c1 x c m
    by (simp add: r t)
qed

section \<open>Properties of the refresh cycle\<close>

lemma latest_log [simp]:
  "latest (log_info m s) = latest s" "latest (log_error m s) = latest s"
  by (simp_all add: log_info_def log_error_def)

lemma extractor_call_keeps:
  "extractor_call what res w = (r, w') \<Longrightarrow> r = res \<and> files w' = files w"
  "extractor_call what res s = (r, s') \<Longrightarrow> latest s' = latest s"
  by (auto simp: extractor_call_def Let_def split: sum.splits)

lemma extract_data_keeps:
  "extract_data c w = (r, w') \<Longrightarrow> files w' = files w"
  "extract_data c s = (r, s') \<Longrightarrow> latest s' = latest s"
  by (auto simp: extract_data_def split: prod.splits sum.splits dest!: extractor_call_keeps)

lemma extract_data_fails:
  assumes "purchase_fetch c = Inl e \<or> production_fetch c = Inl e \<or> packing_fetch c = Inl e
      \<or> shipment_fetch c = Inl e"
  shows "\<exists>e' w'. extract_data c w = (Inl e', w') \<and>
     Inl e' \<in> {purchase_fetch c, production_fetch c, packing_fetch c, shipment_fetch c}"
  using assms
  by (auto simp: extract_data_def extractor_call_def Let_def split: prod.splits sum.splits)

lemma extract_data_succeeds:
  assumes "purchase_fetch c = Inr pu" "production_fetch c = Inr pr" "packing_fetch c = Inr pk"
    "shipment_fetch c = Inr sh"
  shows "\<exists>w'. extract_data c w = (Inr (pu, pr, pk, sh), w')"
  using assms
  by (auto simp: extract_data_def extractor_call_def Let_def split: prod.splits sum.splits)

lemma last_log_error [simp]: "last (log (log_error m w)) = (ERROR, m)"
  by (simp add: log_error_def)

text \<open>
  Claim C4. If one of the four calls of the extractor raises, the cycle leaves
  \<open>latest_data\<close> and every file as they were, logs the error, and returns without raising:
  nothing is left running.
\<close>

theorem fetch_failure_isolation:
  assumes "purchase_fetch c = Inl e \<or> production_fetch c = Inl e \<or> packing_fetch c = Inl e
      \<or> shipment_fetch c = Inl e"
  shows "fst (fetch_and_process_data c s) = None \<and>
     latest (snd (fetch_and_process_data c s)) = latest s \<and>
     files (snd (fetch_and_process_data c s)) = files s \<and>
     (\<exists>e'. Inl e' \<in> {purchase_fetch c, production_fetch c, packing_fetch c, shipment_fetch c} \<and>
        last (log (snd (fetch_and_process_data c s)))
          = (ERROR, ''Error in data processing: '' @ str_exn e'))"
proof -
  let ?s0 = "log_info ''Starting data fetch and processing...'' s"
  from extract_data_fails [OF assms, of ?s0] obtain e' s1 where
    x: "extract_data c ?s0 = (Inl e', s1)"
    and e': "Inl e' \<in> {purchase_fetch c, production_fetch c, packing_fetch c, shipment_fetch c}"
    by blast
  have r: "fetch_and_process_data c s = (None, log_error (''Error in data processing: '' @ str_exn e') s1)"
    by (simp add: fetch_and_process_data_def x)
  from extract_data_keeps [OF x] have "files s1 = files s" "latest s1 = latest s"
    by simp_all
  with r e' show ?thesis
    by (simp del: insert_iff) blast
qed

text \<open>
  Whether the report writer raises does not depend on the files and the log it starts
  from; and it never assigns to \<open>latest_data\<close>.
\<close>

lemma write_file_outcome: "fst (write_file pf p d w) = fst (write_file pf p d w0)"
  by (simp add: write_file_def split: outcome.splits)

lemma write_file_latest [simp]: "latest (snd (write_file pf p d s)) = latest s"
  by (simp add: write_file_def split: outcome.splits)

lemma excel_try_outcome:
  "fst (excel_try pf now pu pr pk sh w) = fst (excel_try pf now pu pr pk sh w0)"
  by (auto simp: excel_try_def copy_file_def write_file_def update_conv' Let_def
      split: outcome.splits option.splits prod.splits)

lemma excel_try_latest_kept [simp]: "latest (snd (excel_try pf now pu pr pk sh s)) = latest s"
  by (auto simp: excel_try_def copy_file_def write_file_def Let_def
      split: outcome.splits option.splits prod.splits)

lemma generate_excel_reports_outcome:
  "fst (generate_excel_reports pf now pu pr pk sh w) = fst (generate_excel_reports pf now pu pr pk sh w0)"
  using excel_try_outcome [of pf now pu pr pk sh "log_info ''Generating Excel reports...'' w"
      "log_info ''Generating Excel reports...'' w0"]
  by (auto simp: generate_excel_reports_def split: prod.splits option.splits)

lemma generate_excel_reports_latest [simp]:
  "latest (snd (generate_excel_reports pf now pu pr pk sh s)) = latest s"
  by (simp add: generate_excel_reports_def split_beta split: option.splits)

lemma csv_loop_outcome: "fst (csv_loop pf now ds w) = fst (csv_loop pf now ds w0)"
proof (induction ds arbitrary: w w0)
  case Nil
  then show ?case by simp
next
  case (Cons a ds)
  obtain name df where a: "a = (name, df)" by (cases a)
  show ?case
    using Cons.IH
    by (auto simp: a write_file_def Let_def split: outcome.splits)
qed

lemma csv_loop_latest_kept [simp]: "latest (snd (csv_loop pf now ds s)) = latest s"
proof (induction ds arbitrary: s)
  case Nil
  then show ?case by simp
next
  case (Cons a ds)
  obtain name df where a: "a = (name, df)" by (cases a)
  show ?case
    using Cons.IH
    by (auto simp: a write_file_def Let_def split: outcome.splits)
qed

lemma generate_csv_exports_outcome:
  "fst (generate_csv_exports pf now pu pr pk sh w) = fst (generate_csv_exports pf now pu pr pk sh w0)"
  using csv_loop_outcome [of pf now "csv_datasets pu pr pk sh" "log_info ''Generating CSV exports...'' w"
      "log_info ''Generating CSV exports...'' w0"]
  by (auto simp: generate_csv_exports_def Let_def split: prod.splits option.splits)

lemma generate_csv_exports_latest [simp]:
  "latest (snd (generate_csv_exports pf now pu pr pk sh s)) = latest s"
  by (simp add: generate_csv_exports_def Let_def split_beta split: option.splits)

lemma generate_reports_outcome:
  "fst (generate_reports c d w) = fst (generate_reports c d w0)"
proof -
  obtain pu pr pk sh where d: "d = (pu, pr, pk, sh)" by (cases d)
  show ?thesis
    using generate_excel_reports_outcome [of "os c" "excel_now c" pu pr pk sh w w0]
      generate_csv_exports_outcome [of "os c" "csv_now c" pu pr pk sh
        "snd (generate_excel_reports (os c) (excel_now c) pu pr pk sh w)"
        "snd (generate_excel_reports (os c) (excel_now c) pu pr pk sh w0)"]
    by (auto simp: generate_reports_def d split: prod.splits option.splits)
qed

lemma generate_reports_latest [simp]: "latest (snd (generate_reports c d s)) = latest s"
proof -
  obtain pu pr pk sh where d: "d = (pu, pr, pk, sh)" by (cases d)
  show ?thesis
    by (simp add: generate_reports_def d split_beta split: option.splits)
qed

lemma update_global_state_snapshot:
  "update_global_state now (pu, pr, pk, sh) ld = snapshot_at pu pr pk sh now"
  by (simp add: update_global_state_def snapshot_at_def)

theorem fetch_failure_isolation_witness:
  "packing_fetch ((example_cycle (\<lambda>p. Completed))\<lparr>packing_fetch := Inl (FetchError ''connection lost'')\<rparr>)
     = Inl (FetchError ''connection lost'') \<and>
   fst (fetch_and_process_data
     ((example_cycle (\<lambda>p. Completed))\<lparr>packing_fetch := Inl (FetchError ''connection lost'')\<rparr>)
     example_system) = None \<and>
   latest (snd (fetch_and_process_data
     ((example_cycle (\<lambda>p. Completed))\<lparr>packing_fetch := Inl (FetchError ''connection lost'')\<rparr>)
     example_system)) = latest example_system \<and>
   files (snd (fetch_and_process_data
     ((example_cycle (\<lambda>p. Completed))\<lparr>packing_fetch := Inl (FetchError ''connection lost'')\<rparr>)
     example_system)) = files example_system \<and>
   last (log (snd (fetch_and_process_data
     ((example_cycle (\<lambda>p. Completed))\<lparr>packing_fetch := Inl (FetchError ''connection lost'')\<rparr>)
     example_system))) = (ERROR, ''Error in data processing: connection lost'')"
proof -
  let ?c = "(example_cycle (\<lambda>p. Completed))\<lparr>packing_fetch := Inl (FetchError ''connection lost'')\<rparr>"
  have p: "packing_fetch ?c = Inl (FetchError ''connection lost'')"
    by simp
  have o: "purchase_fetch ?c = Inr example_purchase"
    "production_fetch ?c = Inr (empty_frame production_columns)"
    "shipment_fetch ?c = Inr (shipment_of ''Dispatched'')"
    by (simp_all add: example_cycle_def)
  from fetch_failure_isolation [of ?c "FetchError ''connection lost''" example_system] p
  obtain e' where "fst (fetch_and_process_data ?c example_system) = None"
    "latest (snd (fetch_and_process_data ?c example_system)) = latest example_system"
    "files (snd (fetch_and_process_data ?c example_system)) = files example_system"
    "Inl e' \<in> {purchase_fetch ?c, production_fetch ?c, packing_fetch ?c, shipment_fetch ?c}"
    "last (log (snd (fetch_and_process_data ?c example_system)))
       = (ERROR, ''Error in data processing: '' @ str_exn e')"
    by blast
  moreover from this(4) have "e' = FetchError ''connection lost''"
    unfolding o p by simp
  ultimately show ?thesis
    using p by simp
qed

text \<open>
  Claim C6. If the four calls of the extractor return and the report writer raises (whether
  it does is decided by the platform and the datasets, not by the files present), the
  snapshot just published stays in \<open>latest_data\<close>, the error is logged, and the call
  returns without raising.
\<close>

theorem report_failure_keeps_publish:
  assumes "purchase_fetch c = Inr pu" "production_fetch c = Inr pr" "packing_fetch c = Inr pk"
    "shipment_fetch c = Inr sh"
    and "fst (generate_reports c (pu, pr, pk, sh) w) = Some e"
  shows "fst (fetch_and_process_data c s) = None \<and>
     latest (snd (fetch_and_process_data c s)) = snapshot_at pu pr pk sh (publish_now c) \<and>
     last (log (snd (fetch_and_process_data c s)))
       = (ERROR, ''Error in data processing: '' @ str_exn e)"
proof -
  let ?s0 = "log_info ''Starting data fetch and processing...'' s"
  from extract_data_succeeds [OF assms(1-4), of ?s0] obtain s1 where
    x: "extract_data c ?s0 = (Inr (pu, pr, pk, sh), s1)"
    by blast
  let ?s2 = "s1\<lparr>latest := snapshot_at pu pr pk sh (publish_now c)\<rparr>"
  obtain r s3 where g: "generate_reports c (pu, pr, pk, sh) ?s2 = (r, s3)"
    by (cases "generate_reports c (pu, pr, pk, sh) ?s2")
  have "r = Some e"
    using generate_reports_outcome [of c "(pu, pr, pk, sh)" ?s2 w] g assms(5) by simp
  moreover have "latest s3 = snapshot_at pu pr pk sh (publish_now c)"
    using generate_reports_latest [of c "(pu, pr, pk, sh)" ?s2] g by simp
  ultimately show ?thesis
    by (simp add: fetch_and_process_data_def x update_global_state_snapshot g)
qed

theorem report_failure_keeps_publish_witness:
  "purchase_fetch (example_cycle (deny_at (excel_filename example_time))) = Inr example_purchase \<and>
   production_fetch (example_cycle (deny_at (excel_filename example_time)))
     = Inr (empty_frame production_columns) \<and>
   packing_fetch (example_cycle (deny_at (excel_filename example_time)))
     = Inr (empty_frame packing_columns) \<and>
   shipment_fetch (example_cycle (deny_at (excel_filename example_time)))
     = Inr (shipment_of ''Dispatched'') \<and>
   fst (generate_reports (example_cycle (deny_at (excel_filename example_time)))
     (example_purchase, empty_frame production_columns, empty_frame packing_columns,
      shipment_of ''Dispatched'') stale_reports) = Some (OSError ''Permission denied'') \<and>
   fst (fetch_and_process_data (example_cycle (deny_at (excel_filename example_time)))
     example_system) = None \<and>
   latest (snd (fetch_and_process_data (example_cycle (deny_at (excel_filename example_time)))
     example_system))
     = snapshot_at example_purchase (empty_frame production_columns)
         (empty_frame packing_columns) (shipment_of ''Dispatched'') example_time \<and>
   latest (snd (fetch_and_process_data (example_cycle (deny_at (excel_filename example_time)))
     example_system)) \<noteq> latest example_system \<and>
   last (log (snd (fetch_and_process_data (example_cycle (deny_at (excel_filename example_time)))
     example_system))) = (ERROR, ''Error in data processing: Permission denied'')"
proof -
  let ?c = "example_cycle (deny_at (excel_filename example_time))"
  have f: "purchase_fetch ?c = Inr example_purchase"
    "production_fetch ?c = Inr (empty_frame production_columns)"
    "packing_fetch ?c = Inr (empty_frame packing_columns)"
    "shipment_fetch ?c = Inr (shipment_of ''Dispatched'')"
    by (simp_all add: example_cycle_def)
  have g: "fst (generate_reports ?c (example_purchase, empty_frame production_columns,
      empty_frame packing_columns, shipment_of ''Dispatched'') stale_reports)
      = Some (OSError ''Permission denied'')"
    by (simp add: generate_reports_def generate_excel_reports_def excel_try_def example_cycle_def
        demo_platform_def deny_at_def Let_def)
  have t: "publish_now ?c = example_time"
    by (simp add: example_cycle_def)
  have d: "snapshot_at example_purchase (empty_frame production_columns)
         (empty_frame packing_columns) (shipment_of ''Dispatched'') example_time
       \<noteq> latest example_system"
    by (simp add: example_system_def snapshot_at_def example_time_def earlier_time_def)
  show ?thesis
    using report_failure_keeps_publish [OF f g, of example_system] f g d
    by (simp add: t)
qed

section \<open>Properties of concurrent cycles\<close>

lemma whole_update:
  assumes "whole ths ld" "i < length ths"
    and "\<And>x. published_by (ths ! i) = Some x \<Longrightarrow> published_by t' = Some x"
  shows "whole (ths[i := t']) ld"
proof -
  from assms(1) consider "ld = initial_data" | k where "k < length ths" "published_by (ths ! k) = Some ld"
    by (auto simp: whole_def)
  then show ?thesis
  proof cases
    case 1
    then show ?thesis by (simp add: whole_def)
  next
    case 2
    then have "published_by (ths[i := t'] ! k) = Some ld"
      using assms(2,3) by (cases "k = i") simp_all
    with 2(1) show ?thesis by (auto simp: whole_def)
  qed
qed

lemma snapshot_of_fetched:
  "fetched c d \<Longrightarrow> snapshot_of c = Some (update_global_state (publish_now c) d base)"
  by (cases d) (simp add: fetched_def snapshot_of_def update_global_state_def snapshot_at_def)

text \<open>
  The invariant: every thread holds the frames its fetches returned; a thread between
  acquisition and release is the holder of the lock; and \<open>latest_data\<close> is whole when the
  lock is free, staged from a whole dictionary when it is held.
\<close>

lemma move_holding:
  "move i p c lk ld p' lk' ld' \<Longrightarrow> holding p c \<Longrightarrow> holding p' c"
  by (cases p) (auto simp: fetched_def)

lemma move_published:
  "move i p c lk ld p' lk' ld' \<Longrightarrow> has_published p \<Longrightarrow> has_published p'"
  by (cases p) auto

lemma move_outside:
  "move i p c lk ld p' lk' ld' \<Longrightarrow> \<not> holds_lock p \<Longrightarrow> \<not> holds_lock p' \<Longrightarrow> lk' = lk \<and> ld' = ld"
  by (cases p) auto

lemma move_acquire:
  "move i p c lk ld p' lk' ld' \<Longrightarrow> \<not> holds_lock p \<Longrightarrow> holds_lock p' \<Longrightarrow>
   lk = None \<and> lk' = Some i \<and> ld' = ld \<and> staged p' now ld = ld \<and> \<not> has_published p"
  by (cases p) auto

lemma move_inside:
  "move i p c lk ld p' lk' ld' \<Longrightarrow> holds_lock p \<Longrightarrow> holds_lock p' \<Longrightarrow>
   lk' = lk \<and> (ld = staged p (publish_now c) base \<longrightarrow> ld' = staged p' (publish_now c) base)"
  by (cases p) (auto simp: update_global_state_def split_beta)

lemma move_release:
  "move i p c lk ld p' lk' ld' \<Longrightarrow> holding p c \<Longrightarrow> holds_lock p \<Longrightarrow> \<not> holds_lock p' \<Longrightarrow>
   lk' = None \<and> ld' = ld \<and> has_published p' \<and>
   (ld = staged p (publish_now c) base \<longrightarrow> snapshot_of c = Some ld)"
  by (cases p) (auto simp: snapshot_of_fetched)

lemma holds_lock_unpublished: "holds_lock p \<Longrightarrow> \<not> has_published p"
  by (cases p) auto

lemma inv3_move:
  assumes inv: "inv3 ths lk ld" and i: "i < length ths"
    and mv: "move i (pc (ths ! i)) (env (ths ! i)) lk ld p' lk' ld'"
  shows "inv3 (ths[i := (ths ! i)\<lparr>pc := p'\<rparr>]) lk' ld'"
proof -
  let ?p = "pc (ths ! i)" and ?c = "env (ths ! i)"
  let ?t = "(ths ! i)\<lparr>pc := p'\<rparr>"
  let ?ths = "ths[i := ?t]"
  from inv have hold: "\<And>k. k < length ths \<Longrightarrow> holding (pc (ths ! k)) (env (ths ! k))"
    and owner: "\<And>k. k < length ths \<Longrightarrow> holds_lock (pc (ths ! k)) \<Longrightarrow> lk = Some k"
    and free: "lk = None \<Longrightarrow> whole ths ld"
    and held: "\<And>j. lk = Some j \<Longrightarrow> j < length ths \<and> holds_lock (pc (ths ! j)) \<and>
          (\<exists>base. whole ths base \<and> ld = staged (pc (ths ! j)) (publish_now (env (ths ! j))) base)"
    by (auto simp: inv3_def)
  have nth: "\<And>k. k < length ths \<Longrightarrow> ?ths ! k = (if k = i then ?t else ths ! k)"
    using i by (simp add: nth_list_update)
  have keep: "\<And>b. whole ths b \<Longrightarrow> whole ?ths b"
  proof -
    fix b assume "whole ths b"
    then show "whole ?ths b"
    proof (rule whole_update [OF _ i])
      fix x assume "published_by (ths ! i) = Some x"
      then show "published_by ?t = Some x"
        using move_published [OF mv] by (auto simp: published_by_def split: if_splits)
    qed
  qed
  have h1: "\<forall>k < length ?ths. holding (pc (?ths ! k)) (env (?ths ! k))"
    using hold move_holding [OF mv hold [OF i]] by (auto simp: nth)
  have others: "\<not> holds_lock (pc (ths ! k))"
    if "k < length ths" "k \<noteq> i" "holds_lock ?p \<or> lk = None" for k
  proof
    assume "holds_lock (pc (ths ! k))"
    with owner that(1) have "lk = Some k" by blast
    moreover from that(3) this owner [OF i] have "lk = Some i" by auto
    ultimately show False using that(2) by simp
  qed
  show ?thesis
  proof (cases "holds_lock ?p")
    case False
    note np = this
    show ?thesis
    proof (cases "holds_lock p'")
      case False
      from move_outside [OF mv np False] have eq: "lk' = lk" "ld' = ld" by simp_all
      have h2: "\<forall>k < length ?ths. holds_lock (pc (?ths ! k)) \<longrightarrow> lk' = Some k"
        using owner False by (auto simp: nth eq)
      have h3: "case lk' of None \<Rightarrow> whole ?ths ld'
        | Some j \<Rightarrow> j < length ?ths \<and> holds_lock (pc (?ths ! j)) \<and>
            (\<exists>base. whole ?ths base \<and> ld' = staged (pc (?ths ! j)) (publish_now (env (?ths ! j))) base)"
      proof (cases lk)
        case None
        with free keep eq show ?thesis by simp
      next
        case (Some j)
        from held [OF Some] np have "j \<noteq> i" by auto
        with held [OF Some] keep Some eq show ?thesis by (auto simp: nth)
      qed
      from h1 h2 h3 show ?thesis by (simp add: inv3_def)
    next
      case True
      from move_acquire [OF mv np True]
      have eq: "lk = None" "lk' = Some i" "ld' = ld"
        and st: "staged p' (publish_now ?c) ld = ld"
        by simp_all
      have h2: "\<forall>k < length ?ths. holds_lock (pc (?ths ! k)) \<longrightarrow> lk' = Some k"
        using others eq by (auto simp: nth)
      have "whole ?ths ld" using free eq keep by simp
      with st True i eq have h3: "case lk' of None \<Rightarrow> whole ?ths ld'
        | Some j \<Rightarrow> j < length ?ths \<and> holds_lock (pc (?ths ! j)) \<and>
            (\<exists>base. whole ?ths base \<and> ld' = staged (pc (?ths ! j)) (publish_now (env (?ths ! j))) base)"
        by (auto simp: nth)
      from h1 h2 h3 show ?thesis by (simp add: inv3_def)
    qed
  next
    case True
    note hp = this
    from owner [OF i hp] have lk: "lk = Some i" .
    from held [OF lk] obtain base where base: "whole ths base"
      "ld = staged ?p (publish_now ?c) base"
      by blast
    show ?thesis
    proof (cases "holds_lock p'")
      case True
      from move_inside [OF mv hp True, of base] base(2)
      have eq: "lk' = lk" "ld' = staged p' (publish_now ?c) base"
        by simp_all
      have h2: "\<forall>k < length ?ths. holds_lock (pc (?ths ! k)) \<longrightarrow> lk' = Some k"
        using others hp by (auto simp: nth eq lk)
      have h3: "case lk' of None \<Rightarrow> whole ?ths ld'
        | Some j \<Rightarrow> j < length ?ths \<and> holds_lock (pc (?ths ! j)) \<and>
            (\<exists>base. whole ?ths base \<and> ld' = staged (pc (?ths ! j)) (publish_now (env (?ths ! j))) base)"
        using keep [OF base(1)] True i eq lk by (auto simp: nth)
      from h1 h2 h3 show ?thesis by (simp add: inv3_def)
    next
      case False
      from move_release [OF mv hold [OF i] hp False, of base] base(2)
      have eq: "lk' = None" "ld' = ld" and pub: "has_published p'" "snapshot_of ?c = Some ld"
        by simp_all
      have h2: "\<forall>k < length ?ths. holds_lock (pc (?ths ! k)) \<longrightarrow> lk' = Some k"
        using others hp False by (auto simp: nth)
      have "published_by (?ths ! i) = Some ld"
        using pub i by (simp add: published_by_def)
      then have "whole ?ths ld"
        using i by (auto simp: whole_def)
      then have h3: "case lk' of None \<Rightarrow> whole ?ths ld'
        | Some j \<Rightarrow> j < length ?ths \<and> holds_lock (pc (?ths ! j)) \<and>
            (\<exists>base. whole ?ths base \<and> ld' = staged (pc (?ths ! j)) (publish_now (env (?ths ! j))) base)"
        by (simp add: eq)
      from h1 h2 h3 show ?thesis by (simp add: inv3_def)
    qed
  qed
qed

lemma inv3_spawn:
  assumes "inv3 ths lk ld"
  shows "inv3 (ths @ [\<lparr>pc = Begin, env = c, on_demand = b\<rparr>]) lk ld"
proof -
  let ?ths = "ths @ [\<lparr>pc = Begin, env = c, on_demand = b\<rparr>]"
  have nth: "\<And>k. k < length ths \<Longrightarrow> ?ths ! k = ths ! k"
    by (simp add: nth_append)
  have new: "pc (?ths ! length ths) = Begin"
    by simp
  have keep: "\<And>x. whole ths x \<Longrightarrow> whole ?ths x"
    unfolding whole_def using nth by (metis length_append_singleton less_Suc_eq)
  from assms have a: "\<forall>k < length ths. holding (pc (ths ! k)) (env (ths ! k))"
    "\<forall>k < length ths. holds_lock (pc (ths ! k)) \<longrightarrow> lk = Some k"
    by (simp_all add: inv3_def)
  have h1: "\<forall>k < length ?ths. holding (pc (?ths ! k)) (env (?ths ! k))"
    using a(1) by (auto simp: nth_append)
  have h2: "\<forall>k < length ?ths. holds_lock (pc (?ths ! k)) \<longrightarrow> lk = Some k"
    using a(2) by (auto simp: nth_append)
  have h3: "case lk of None \<Rightarrow> whole ?ths ld
        | Some j \<Rightarrow> j < length ?ths \<and> holds_lock (pc (?ths ! j)) \<and>
            (\<exists>base. whole ?ths base \<and> ld = staged (pc (?ths ! j)) (publish_now (env (?ths ! j))) base)"
  proof (cases lk)
    case None
    with assms keep show ?thesis by (simp add: inv3_def)
  next
    case (Some j)
    with assms have "j < length ths" "holds_lock (pc (ths ! j))"
      "\<exists>base. whole ths base \<and> ld = staged (pc (ths ! j)) (publish_now (env (ths ! j))) base"
      by (simp_all add: inv3_def)
    with keep Some show ?thesis by (auto simp: nth)
  qed
  from h1 h2 h3 show ?thesis by (simp add: inv3_def)
qed

lemma more_server:
  "world.more w' = world.more w \<Longrightarrow>
   threads w' = threads w \<and> data_lock w' = data_lock w \<and> latest w' = latest w"
  by (cases w rule: server.cases_scheme, cases w' rule: server.cases_scheme) simp

lemma log_more [simp]:
  "world.more (log_info m w) = world.more w" "world.more (log_error m w) = world.more w"
  by (simp_all add: log_info_def log_error_def)

lemma extractor_call_more [simp]:
  "world.more (snd (extractor_call what r w)) = world.more w"
  "fst (extractor_call what r w) = r"
  by (simp_all add: extractor_call_def Let_def split: sum.splits)

lemma write_file_more [simp]: "world.more (snd (write_file pf p d w)) = world.more w"
  by (simp add: write_file_def split: outcome.splits)

lemma copy_file_more [simp]: "world.more (snd (copy_file pf p q w)) = world.more w"
  by (simp add: copy_file_def split: option.splits)

lemma excel_try_more [simp]: "world.more (snd (excel_try pf now pu pr pk sh w)) = world.more w"
  by (simp add: excel_try_def Let_def split_beta split: option.splits)

lemma generate_excel_reports_more [simp]:
  "world.more (snd (generate_excel_reports pf now pu pr pk sh w)) = world.more w"
  by (simp add: generate_excel_reports_def split_beta split: option.splits)

lemma csv_loop_more [simp]: "world.more (snd (csv_loop pf now ds w)) = world.more w"
proof (induction ds arbitrary: w)
  case Nil
  then show ?case by simp
next
  case (Cons a ds)
  obtain name df where a: "a = (name, df)" by (cases a)
  show ?case
    by (simp add: a Let_def split_beta Cons.IH split: option.splits)
qed

lemma generate_csv_exports_more [simp]:
  "world.more (snd (generate_csv_exports pf now pu pr pk sh w)) = world.more w"
  by (simp add: generate_csv_exports_def Let_def split_beta split: option.splits)

lemma goto_parts [simp]:
  "threads (goto i p s) = (threads s)[i := (threads s ! i)\<lparr>pc := p\<rparr>]"
  "data_lock (goto i p s) = data_lock s" "latest (goto i p s) = latest s"
  "log (goto i p s) = log s" "files (goto i p s) = files s"
  by (simp_all add: goto_def)

lemma except_parts [simp]:
  "threads (except i e s) = (threads s)[i := (threads s ! i)\<lparr>pc := Finished\<rparr>]"
  "data_lock (except i e s) = data_lock s" "latest (except i e s) = latest s"
  "files (except i e s) = files s"
  by (simp_all add: except_def log_error_def)

lemma extractor_call_server:
  assumes "extractor_call what r s = (x, s1)"
  shows "x = r \<and> threads s1 = threads s \<and> data_lock s1 = data_lock s \<and> latest s1 = latest s"
proof -
  have "world.more s1 = world.more s" "x = r"
    using extractor_call_more [of what r s] assms by simp_all
  with more_server [of s1 s] show ?thesis by simp
qed

lemma generate_excel_reports_server:
  assumes "generate_excel_reports pf now pu pr pk sh s = (x, s1)"
  shows "threads s1 = threads s \<and> data_lock s1 = data_lock s \<and> latest s1 = latest s"
proof -
  have "world.more s1 = world.more s"
    using generate_excel_reports_more [of pf now pu pr pk sh s] assms by simp
  with more_server [of s1 s] show ?thesis by simp
qed

lemma generate_csv_exports_server:
  assumes "generate_csv_exports pf now pu pr pk sh s = (x, s1)"
  shows "threads s1 = threads s \<and> data_lock s1 = data_lock s \<and> latest s1 = latest s"
proof -
  have "world.more s1 = world.more s"
    using generate_csv_exports_more [of pf now pu pr pk sh s] assms by simp
  with more_server [of s1 s] show ?thesis by simp
qed

lemma log_info_server [simp]:
  "threads (log_info m s) = threads s" "data_lock (log_info m s) = data_lock s"
  "latest (log_info m s) = latest s"
  by (simp_all add: log_info_def)

lemma thread_step_move:
  assumes "thread_step i t s = Some s'" "t = threads s ! i"
  shows "\<exists>p'. threads s' = (threads s)[i := t\<lparr>pc := p'\<rparr>] \<and>
     move i (pc t) (env t) (data_lock s) (latest s) p' (data_lock s') (latest s')"
proof (cases "pc t")
  case Begin
  with assms show ?thesis
    by (auto simp: thread_step_def split: prod.splits sum.splits dest!: extractor_call_server)
next
  case (GotPurchase pu)
  with assms show ?thesis
    by (auto simp: thread_step_def split: prod.splits sum.splits dest!: extractor_call_server)
next
  case (GotProduction pu pr)
  with assms show ?thesis
    by (auto simp: thread_step_def split: prod.splits sum.splits dest!: extractor_call_server)
next
  case (GotPacking pu pr pk)
  with assms show ?thesis
    by (auto simp: thread_step_def split: prod.splits sum.splits dest!: extractor_call_server)
next
  case (Fetched d)
  with assms show ?thesis
    by (auto simp: thread_step_def split: if_splits)
next
  case (WritePurchase d)
  with assms show ?thesis by (auto simp: thread_step_def)
next
  case (WriteProduction d)
  with assms show ?thesis by (auto simp: thread_step_def)
next
  case (WritePacking d)
  with assms show ?thesis by (auto simp: thread_step_def)
next
  case (WriteShipment d)
  with assms show ?thesis by (auto simp: thread_step_def)
next
  case (WriteUpdated d)
  with assms show ?thesis by (auto simp: thread_step_def)
next
  case (Unlock d)
  with assms show ?thesis by (auto simp: thread_step_def)
next
  case (Published d)
  with assms show ?thesis
    by (auto simp: thread_step_def split: prod.splits option.splits
        dest!: generate_excel_reports_server)
next
  case (ExcelDone d)
  with assms show ?thesis
    by (auto simp: thread_step_def split: prod.splits option.splits
        dest!: generate_csv_exports_server)
next
  case Finished
  with assms show ?thesis by (simp add: thread_step_def)
qed

lemma inv_init: "inv (init_server fs)"
  by (simp add: inv_def inv3_def init_server_def whole_def)

lemma inv_step:
  assumes "inv s" "step ev s = Some s'"
  shows "inv s'"
proof (cases ev)
  case (Refresh c)
  with assms show ?thesis
    by (auto simp: step_def refresh_data_def inv_def intro: inv3_spawn)
next
  case (Due c)
  with assms show ?thesis
    by (auto simp: step_def inv_def split: if_splits intro: inv3_spawn)
next
  case (Step i)
  with assms have i: "i < length (threads s)" and t: "thread_step i (threads s ! i) s = Some s'"
    by (auto simp: step_def split: if_splits)
  from thread_step_move [OF t refl] obtain p' where
    "threads s' = (threads s)[i := (threads s ! i)\<lparr>pc := p'\<rparr>]"
    "move i (pc (threads s ! i)) (env (threads s ! i)) (data_lock s) (latest s) p'
       (data_lock s') (latest s')"
    by blast
  with inv3_move [OF assms(1) [unfolded inv_def] i] show ?thesis
    by (simp add: inv_def)
qed

lemma inv_run: "inv s \<Longrightarrow> run evs s = Some s' \<Longrightarrow> inv s'"
  by (induction evs arbitrary: s) (auto split: option.splits dest: inv_step)

text \<open>
  Claim C5. Whatever the threads have done so far, a handler that reads \<open>latest_data\<close>
  under the lock finds either the initial dictionary, with no dataset and no timestamp, or
  the four frames and the timestamp of one cycle that has published: never frames of two
  cycles. The dictionary is partly assigned only while a thread holds \<open>data_lock\<close>, when
  no such handler runs.
\<close>

theorem atomic_publish:
  assumes "run evs (init_server fs) = Some s" and "read_locked s = Some ld"
  shows "ld = initial_data \<or>
    (\<exists>t \<in> set (threads s). has_published (pc t) \<and>
       (\<exists>pu pr pk sh. purchase_fetch (env t) = Inr pu \<and> production_fetch (env t) = Inr pr \<and>
          packing_fetch (env t) = Inr pk \<and> shipment_fetch (env t) = Inr sh \<and>
          ld = snapshot_at pu pr pk sh (publish_now (env t))))"
proof -
  from assms(2) have free: "data_lock s = None" and ld: "ld = latest s"
    by (auto simp: read_locked_def split: if_splits)
  from inv_run [OF inv_init assms(1)] free ld have "whole (threads s) ld"
    by (simp add: inv_def inv3_def)
  then consider "ld = initial_data"
    | k where "k < length (threads s)" "published_by (threads s ! k) = Some ld"
    by (auto simp: whole_def)
  then show ?thesis
  proof cases
    case 1
    then show ?thesis by simp
  next
    case 2
    let ?t = "threads s ! k"
    from 2(2) have p: "has_published (pc ?t)" and sn: "snapshot_of (env ?t) = Some ld"
      by (auto simp: published_by_def split: if_splits)
    from sn obtain pu pr pk sh where "purchase_fetch (env ?t) = Inr pu"
      "production_fetch (env ?t) = Inr pr" "packing_fetch (env ?t) = Inr pk"
      "shipment_fetch (env ?t) = Inr sh" "ld = snapshot_at pu pr pk sh (publish_now (env ?t))"
      by (auto simp: snapshot_of_def split: sum.splits)
    with p 2(1) show ?thesis
      by (metis nth_mem)
  qed
qed

text \<open>Counting the calls of \<open>get_purchase_data\<close>.\<close>

lemma purchase_fetches_simps [simp]:
  "purchase_fetches (log_info m w)
     = (if m = ''Fetching purchase data...'' then Suc (purchase_fetches w) else purchase_fetches w)"
  "purchase_fetches (log_error m w) = purchase_fetches w"
  "purchase_fetches (w\<lparr>files := fs\<rparr>) = purchase_fetches w"
  by (simp_all add: purchase_fetches_def log_info_def log_error_def)

lemma purchase_fetches_server [simp]:
  "purchase_fetches (goto i p s) = purchase_fetches s"
  "purchase_fetches (except i e s) = purchase_fetches s"
  "purchase_fetches (s\<lparr>data_lock := lk\<rparr>) = purchase_fetches s"
  "purchase_fetches (s\<lparr>latest := ld\<rparr>) = purchase_fetches s"
  "purchase_fetches (s\<lparr>threads := ths\<rparr>) = purchase_fetches s"
  by (simp_all add: purchase_fetches_def goto_def except_def log_error_def)

lemma purchase_fetches_extractor_call:
  "purchase_fetches (snd (extractor_call ''purchase'' r w)) = Suc (purchase_fetches w)"
  "purchase_fetches (snd (extractor_call ''production'' r w)) = purchase_fetches w"
  "purchase_fetches (snd (extractor_call ''packing'' r w)) = purchase_fetches w"
  "purchase_fetches (snd (extractor_call ''shipment'' r w)) = purchase_fetches w"
  by (simp_all add: extractor_call_def Let_def split: sum.splits)

lemma purchase_fetches_write_file [simp]:
  "purchase_fetches (snd (write_file pf p d w)) = purchase_fetches w"
  by (simp add: write_file_def split: outcome.splits)

lemma purchase_fetches_excel [simp]:
  "purchase_fetches (snd (generate_excel_reports pf now pu pr pk sh w)) = purchase_fetches w"
  by (simp add: generate_excel_reports_def excel_try_def copy_file_def Let_def split_beta
      split: option.splits)

lemma purchase_fetches_csv_loop [simp]:
  "purchase_fetches (snd (csv_loop pf now ds w)) = purchase_fetches w"
proof (induction ds arbitrary: w)
  case Nil
  then show ?case by simp
next
  case (Cons a ds)
  obtain name df where a: "a = (name, df)" by (cases a)
  show ?case
    by (simp add: a Let_def split_beta Cons.IH split: option.splits)
qed

lemma purchase_fetches_csv [simp]:
  "purchase_fetches (snd (generate_csv_exports pf now pu pr pk sh w)) = purchase_fetches w"
  by (simp add: generate_csv_exports_def Let_def split_beta split: option.splits)

lemma purchase_fetches_reports:
  "generate_excel_reports pf now pu pr pk sh w = (x, w') \<Longrightarrow> purchase_fetches w' = purchase_fetches w"
  "generate_csv_exports pf now pu pr pk sh w = (x, w') \<Longrightarrow> purchase_fetches w' = purchase_fetches w"
  using purchase_fetches_excel [of pf now pu pr pk sh w]
    purchase_fetches_csv [of pf now pu pr pk sh w]
  by (simp_all del: purchase_fetches_excel purchase_fetches_csv)

lemma thread_step_fetches:
  assumes "thread_step i t s = Some s'"
  shows "purchase_fetches s' = purchase_fetches s + (if pc t = Begin then 1 else 0)"
proof (cases "pc t")
  case Begin
  with assms purchase_fetches_extractor_call(1)
    [of "purchase_fetch (env t)" "log_info ''Starting data fetch and processing...'' s"]
  show ?thesis
    by (auto simp: thread_step_def split: prod.splits sum.splits)
next
  case (GotPurchase pu)
  with assms purchase_fetches_extractor_call(2) [of "production_fetch (env t)" s]
  show ?thesis
    by (auto simp: thread_step_def split: prod.splits sum.splits)
next
  case (GotProduction pu pr)
  with assms purchase_fetches_extractor_call(3) [of "packing_fetch (env t)" s]
  show ?thesis
    by (auto simp: thread_step_def split: prod.splits sum.splits)
next
  case (GotPacking pu pr pk)
  with assms purchase_fetches_extractor_call(4) [of "shipment_fetch (env t)" s]
  show ?thesis
    by (auto simp: thread_step_def split: prod.splits sum.splits)
next
  case (Fetched d)
  with assms show ?thesis
    by (auto simp: thread_step_def split: if_splits)
next
  case (WritePurchase d)
  with assms show ?thesis by (auto simp: thread_step_def)
next
  case (WriteProduction d)
  with assms show ?thesis by (auto simp: thread_step_def)
next
  case (WritePacking d)
  with assms show ?thesis by (auto simp: thread_step_def)
next
  case (WriteShipment d)
  with assms show ?thesis by (auto simp: thread_step_def)
next
  case (WriteUpdated d)
  with assms show ?thesis by (auto simp: thread_step_def)
next
  case (Unlock d)
  with assms show ?thesis by (auto simp: thread_step_def)
next
  case (Published d)
  with assms show ?thesis
    by (auto simp: thread_step_def split: prod.splits option.splits
        dest!: purchase_fetches_reports(1))
next
  case (ExcelDone d)
  with assms show ?thesis
    by (auto simp: thread_step_def split: prod.splits option.splits
        dest!: purchase_fetches_reports(2))
next
  case Finished
  with assms show ?thesis by (simp add: thread_step_def)
qed

lemma move_not_begin: "move i p c lk ld p' lk' ld' \<Longrightarrow> p' \<noteq> Begin"
  by (cases p) auto

lemma started_update:
  "i < length ths \<Longrightarrow> p' \<noteq> Begin \<Longrightarrow>
   started (ths[i := (ths ! i)\<lparr>pc := p'\<rparr>]) = started ths + (if pc (ths ! i) = Begin then 1 else 0)"
proof (induction ths arbitrary: i)
  case Nil
  then show ?case by simp
next
  case (Cons t ths)
  then show ?case
    by (cases i) (auto simp: started_def)
qed

lemma started_spawn [simp]: "started (ths @ [\<lparr>pc = Begin, env = c, on_demand = b\<rparr>]) = started ths"
  by (simp add: started_def)

lemma step_fetches:
  assumes "step ev s = Some s'" "purchase_fetches s = started (threads s)"
  shows "purchase_fetches s' = started (threads s')"
proof (cases ev)
  case (Refresh c)
  with assms show ?thesis
    by (auto simp: step_def refresh_data_def)
next
  case (Due c)
  with assms show ?thesis
    by (auto simp: step_def split: if_splits)
next
  case (Step i)
  with assms have i: "i < length (threads s)" and t: "thread_step i (threads s ! i) s = Some s'"
    by (auto simp: step_def split: if_splits)
  from thread_step_move [OF t refl] obtain p' where
    th: "threads s' = (threads s)[i := (threads s ! i)\<lparr>pc := p'\<rparr>]"
    and "move i (pc (threads s ! i)) (env (threads s ! i)) (data_lock s) (latest s) p'
       (data_lock s') (latest s')"
    by blast
  then have "p' \<noteq> Begin" by (auto dest: move_not_begin)
  from started_update [OF i this] thread_step_fetches [OF t] assms(2) th
  show ?thesis by simp
qed

lemma run_fetches:
  "run evs s = Some s' \<Longrightarrow> purchase_fetches s = started (threads s) \<Longrightarrow>
   purchase_fetches s' = started (threads s')"
  by (induction evs arbitrary: s) (auto split: option.splits dest: step_fetches)

lemma begin_step:
  assumes "i < length (threads s)" "pc (threads s ! i) = Begin"
  shows "\<exists>s'. step (Step i) s = Some s' \<and> purchase_fetches s' = Suc (purchase_fetches s)"
proof -
  obtain r s1 where "extractor_call ''purchase'' (purchase_fetch (env (threads s ! i)))
      (log_info ''Starting data fetch and processing...'' s) = (r, s1)"
    by (cases "extractor_call ''purchase'' (purchase_fetch (env (threads s ! i)))
      (log_info ''Starting data fetch and processing...'' s)")
  with assms(2) obtain s' where t: "thread_step i (threads s ! i) s = Some s'"
    by (cases r) (simp_all add: thread_step_def)
  from thread_step_fetches [OF t] assms t show ?thesis
    by (simp add: step_def)
qed

text \<open>
  Claim C1, as amended. No trigger is dropped. In every state of the server a refresh
  request starts a new thread, whether or not a cycle is running; a thread that has been
  started can always take its first step, which calls \<open>get_purchase_data\<close>; and the number
  of these calls so far is the number of threads that have taken their first step. So N
  triggers lead to N calls of the fetch interface.
\<close>

theorem every_trigger_starts_a_cycle:
  assumes "run evs (init_server fs) = Some s"
  shows "step (Refresh c) s
           = Some (s\<lparr>threads := threads s @ [\<lparr>pc = Begin, env = c, on_demand = True\<rparr>]\<rparr>) \<and>
         (\<forall>i < length (threads s). pc (threads s ! i) = Begin \<longrightarrow>
            (\<exists>s'. step (Step i) s = Some s' \<and> purchase_fetches s' = Suc (purchase_fetches s))) \<and>
         purchase_fetches s = length (filter (\<lambda>t. pc t \<noteq> Begin) (threads s))"
proof -
  have "purchase_fetches (init_server fs) = started (threads (init_server fs))"
    by (simp add: purchase_fetches_def init_server_def started_def)
  from run_fetches [OF assms this] begin_step [of _ s] show ?thesis
    by (simp add: step_def refresh_data_def started_def)
qed

text \<open>The example runs.\<close>

lemma run_append:
  "run (xs @ ys) s = (case run xs s of None \<Rightarrow> None | Some s' \<Rightarrow> run ys s')"
  by (induction xs arbitrary: s) (auto split: option.splits)

lemma example_cycle_simps [simp]:
  "purchase_fetch (example_cycle wr) = Inr example_purchase"
  "production_fetch (example_cycle wr) = Inr (empty_frame production_columns)"
  "packing_fetch (example_cycle wr) = Inr (empty_frame packing_columns)"
  "shipment_fetch (example_cycle wr) = Inr (shipment_of ''Dispatched'')"
  "publish_now (example_cycle wr) = example_time"
  "excel_now (example_cycle wr) = example_time"
  "csv_now (example_cycle wr) = example_time"
  "os (example_cycle wr) = demo_platform wr"
  by (simp_all add: example_cycle_def)

lemma example_extractor_calls:
  "extractor_call ''purchase'' (Inr example_purchase) w
     = (Inr example_purchase, log_info ''Retrieved 10 purchase records''
          (log_info ''Fetching purchase data...'' w))"
  "extractor_call ''production'' (Inr (empty_frame production_columns)) w
     = (Inr (empty_frame production_columns), log_info ''Retrieved 0 production records''
          (log_info ''Fetching production data...'' w))"
  "extractor_call ''packing'' (Inr (empty_frame packing_columns)) w
     = (Inr (empty_frame packing_columns), log_info ''Retrieved 0 packing records''
          (log_info ''Fetching packing data...'' w))"
  "extractor_call ''shipment'' (Inr (shipment_of ''Dispatched'')) w
     = (Inr (shipment_of ''Dispatched''), log_info ''Retrieved 1 shipment records''
          (log_info ''Fetching shipment data...'' w))"
  by (simp_all add: extractor_call_def Let_def len_def example_purchase_def empty_frame_def
      shipment_of_def digits.simps)

lemma boot_fetched:
  "run (take 5 boot) (init_server []) = Some
     \<lparr>files = [], log = take 9 (log booted_server), latest = initial_data,
      threads = [\<lparr>pc = Fetched example_datasets, env = example_cycle (\<lambda>p. Completed),
                  on_demand = False\<rparr>],
      data_lock = None\<rparr>"
  by (simp add: boot_def init_server_def step_def thread_step_def example_extractor_calls
      log_info_def goto_def booted_server_def example_datasets_def)

lemma create_summary_example:
  "\<exists>S. create_summary example_purchase (empty_frame production_columns)
      (empty_frame packing_columns) (shipment_of ''Dispatched'') = Inr S"
  using create_summary_schema [OF schema_example_purchase schema_empty(2,3) schema_shipment_of]
  by simp

lemma demo_to_csv:
  "to_csv (demo_platform wr) example_purchase
     = ''po_id,vendor_name,item_name,quantity,unit_price,order_date,delivery_date,status,amount,''"
  "to_csv (demo_platform wr) (empty_frame production_columns)
     = ''production_id,product_name,batch_no,quantity,unit,start_date,end_date,status,department,''"
  "to_csv (demo_platform wr) (empty_frame packing_columns)
     = ''packing_id,product_name,quantity,package_type,packing_date,status,operator,''"
  "to_csv (demo_platform wr) (shipment_of ''Dispatched'')
     = ''shipment_id,customer_name,destination,quantity,shipment_date,expected_delivery,status,transporter,''"
  by (simp_all add: demo_platform_def example_purchase_def purchase_columns_def
      production_columns_def packing_columns_def shipment_columns_def empty_frame_def
      shipment_of_def)

lemma demo_platform_simps [simp]:
  "write_result (demo_platform wr) = wr"
  "to_excel (demo_platform wr) sheets = concat (map (\<lambda>(n, s). n @ '';'') sheets)"
  by (simp_all add: demo_platform_def)

lemma boot_published:
  "run (take 12 boot) (init_server []) = Some
     \<lparr>files = [], log = take 9 (log booted_server),
      latest = snapshot_at example_purchase (empty_frame production_columns)
                 (empty_frame packing_columns) (shipment_of ''Dispatched'') example_time,
      threads = [\<lparr>pc = Published example_datasets, env = example_cycle (\<lambda>p. Completed),
                  on_demand = False\<rparr>],
      data_lock = None\<rparr>"
proof -
  have "take 12 boot = take 5 boot @ [Step 0, Step 0, Step 0, Step 0, Step 0, Step 0, Step 0]"
    by (simp add: boot_def)
  then show ?thesis
    by (simp add: run_append boot_fetched step_def thread_step_def goto_def initial_data_def
        snapshot_at_def example_datasets_def)
qed

lemma boot_done: "run boot (init_server []) = Some booted_server"
proof -
  obtain S where S: "create_summary example_purchase (empty_frame production_columns)
      (empty_frame packing_columns) (shipment_of ''Dispatched'') = Inr S"
    using create_summary_example by blast
  have "boot = take 12 boot @ [Step 0, Step 0]"
    by (simp add: boot_def)
  then have "run boot (init_server []) = run (take 12 boot @ [Step 0, Step 0]) (init_server [])"
    by simp
  also have "\<dots> = Some booted_server"
    by (simp add: run_append boot_published step_def thread_step_def goto_def
        example_datasets_def generate_excel_reports_def excel_try_def workbook_sheets_def S
        generate_csv_exports_def csv_datasets_def write_file_def copy_file_def
        excel_filename_def excel_latest_filename_def csv_filename_def csv_latest_filename_def
        report_dir_def csv_dir_def stamp_example demo_to_csv log_info_def Let_def
        booted_server_def)
  finally show ?thesis .
qed

lemma first_request: "run [request, Step 1] booted_server = Some first_running"
  by (simp add: request_def step_def refresh_data_def thread_step_def example_extractor_calls
      log_info_def goto_def booted_server_def first_running_def)

lemma second_request: "run [request, Step 2] first_running = Some both_running"
  by (simp add: request_def step_def refresh_data_def thread_step_def example_extractor_calls
      log_info_def goto_def booted_server_def first_running_def both_running_def)

text \<open>
  After the start-up cycle, a first request starts a cycle, which fetches the purchase data
  (two calls so far). A second request arrives while that cycle is running: it starts a
  third thread, and the purchase data are fetched a third time.
\<close>

theorem second_trigger_not_dropped_counterexample:
  "map_option (\<lambda>s. (map running (threads s), purchase_fetches s))
     (run (boot @ [request, Step 1]) (init_server [])) = Some ([False, True], 2) \<and>
   map_option (\<lambda>s. (map running (threads s), purchase_fetches s))
     (run (boot @ [request, Step 1] @ [request, Step 2]) (init_server []))
     = Some ([False, True, True], 3)"
proof -
  have a: "run (boot @ [request, Step 1]) (init_server []) = Some first_running"
    by (simp only: run_append boot_done first_request option.case)
  have b: "run (boot @ [request, Step 1] @ [request, Step 2]) (init_server []) = Some both_running"
    by (simp only: run_append boot_done first_request second_request option.case)
  have "map running (threads first_running) = [False, True]"
    "map running (threads both_running) = [False, True, True]"
    "purchase_fetches first_running = 2" "purchase_fetches both_running = 3"
    by (simp_all add: running_def purchase_fetches_def first_running_def both_running_def
        booted_server_def)
  with a b show ?thesis by simp
qed

lemma request_received: "run (boot @ [request]) (init_server []) = Some request_pending"
  by (simp add: run_append boot_done)
    (simp add: request_def step_def refresh_data_def request_pending_def booted_server_def)

theorem every_trigger_starts_a_cycle_witness:
  "run (boot @ [request]) (init_server []) = Some request_pending \<and>
   step (Refresh (example_cycle (\<lambda>p. Completed))) request_pending
     = Some (request_pending\<lparr>threads := threads request_pending @
          [\<lparr>pc = Begin, env = example_cycle (\<lambda>p. Completed), on_demand = True\<rparr>]\<rparr>) \<and>
   1 < length (threads request_pending) \<and> pc (threads request_pending ! 1) = Begin \<and>
   (\<exists>s'. step (Step 1) request_pending = Some s' \<and>
      purchase_fetches s' = Suc (purchase_fetches request_pending)) \<and>
   purchase_fetches request_pending = 1"
proof -
  have t: "1 < length (threads request_pending)" "pc (threads request_pending ! 1) = Begin"
    and n: "length (filter (\<lambda>t. pc t \<noteq> Begin) (threads request_pending)) = 1"
    by (simp_all add: request_pending_def)
  note T = every_trigger_starts_a_cycle [OF request_received, of "example_cycle (\<lambda>p. Completed)"]
  from T have a: "step (Refresh (example_cycle (\<lambda>p. Completed))) request_pending
     = Some (request_pending\<lparr>threads := threads request_pending @
          [\<lparr>pc = Begin, env = example_cycle (\<lambda>p. Completed), on_demand = True\<rparr>]\<rparr>)"
    by (rule conjunct1)
  from T t have b: "\<exists>s'. step (Step 1) request_pending = Some s' \<and>
      purchase_fetches s' = Suc (purchase_fetches request_pending)"
    by blast
  from T n have c: "purchase_fetches request_pending = 1"
    by simp
  from request_received a t b c show ?thesis
    by (intro conjI)
qed

theorem atomic_publish_witness:
  "run boot (init_server []) = Some booted_server \<and>
   read_locked booted_server = Some (snapshot_at example_purchase (empty_frame production_columns)
      (empty_frame packing_columns) (shipment_of ''Dispatched'') example_time) \<and>
   (snapshot_at example_purchase (empty_frame production_columns)
      (empty_frame packing_columns) (shipment_of ''Dispatched'') example_time = initial_data \<or>
    (\<exists>t \<in> set (threads booted_server). has_published (pc t) \<and>
       (\<exists>pu pr pk sh. purchase_fetch (env t) = Inr pu \<and> production_fetch (env t) = Inr pr \<and>
          packing_fetch (env t) = Inr pk \<and> shipment_fetch (env t) = Inr sh \<and>
          snapshot_at example_purchase (empty_frame production_columns)
            (empty_frame packing_columns) (shipment_of ''Dispatched'') example_time
          = snapshot_at pu pr pk sh (publish_now (env t)))))"
proof -
  have r: "read_locked booted_server = Some (snapshot_at example_purchase
      (empty_frame production_columns) (empty_frame packing_columns)
      (shipment_of ''Dispatched'') example_time)"
    by (simp add: read_locked_def booted_server_def)
  from atomic_publish [OF boot_done r] boot_done r show ?thesis
    by (intro conjI)
qed

end
